theory Spec2Isabelle
  imports Complex_Main
begin

section \<open>Discounted rewards (texar/losses/rewards.py)\<close>

text \<open>
  The module computes discounted returns from rewards. Numeric containers are modelled
  by lists: a rank-1 array is a list, a rank-2 array (batch by time) is a list of rows
  of equal length. Array elements are idealised as real numbers, so \<open>discount == 1.\<close>
  is equality with \<open>1\<close>; the \<open>dtype\<close> override is left at its default \<open>None\<close>.
  Sequence lengths are Python integers. Every exception the code can raise is a value
  of \<open>error\<close>; a function that may raise returns \<open>error + result\<close>.
\<close>

subsection \<open>Data model\<close>

type_synonym matrix = "real list list"

datatype error =
    TensorRankError      \<comment> \<open>ValueError: tensor\_rank can only be 1 or 2\<close>
  | RewardRankError      \<comment> \<open>ValueError: reward can only be 1D or 2D\<close>
  | MissingLength        \<comment> \<open>ValueError: sequence\_length must not be None for 1D reward\<close>
  | EmptyReduction       \<comment> \<open>numpy: maximum of a zero-size array\<close>
  | NegativeDimension    \<comment> \<open>numpy/TensorFlow: an array with a negative dimension\<close>
  | ShapeError           \<comment> \<open>operands that cannot be broadcast together\<close>
  | IndexOutOfBounds     \<comment> \<open>TensorFlow: slice index out of bounds\<close>
  | RankMismatch         \<comment> \<open>a kernel applied to a container of another rank (outside the model)\<close>

text \<open>
  A numeric container with its dimensionality. Containers of rank 3 and more only
  matter through their rank.
\<close>

datatype ndarray = Scalar real | Vec "real list" | Mat matrix | Higher nat

fun ndim :: "ndarray \<Rightarrow> int" where
  "ndim (Scalar x) = 0"
| "ndim (Vec v) = 1"
| "ndim (Mat m) = 2"
| "ndim (Higher n) = int n + 3"

text \<open>An operand is a Python array (eager) or a TensorFlow tensor (deferred).\<close>

datatype 'a operand = Py 'a | Tensor 'a

fun is_tensor :: "'a operand \<Rightarrow> bool" where
  "is_tensor (Py x) = False"
| "is_tensor (Tensor x) = True"

fun payload :: "'a operand \<Rightarrow> 'a" where
  "payload (Py x) = x"
| "payload (Tensor x) = x"

text \<open>All rows of a rank-2 container have the same length.\<close>

definition rect :: "matrix \<Rightarrow> bool" where
  "rect m = list_all (\<lambda>row. length row = length (hd m)) m"

text \<open>\<open>shape[1]\<close> of a rank-2 container.\<close>

definition ncols :: "matrix \<Rightarrow> nat" where
  "ncols m = (case m of [] \<Rightarrow> 0 | row # _ \<Rightarrow> length row)"

subsection \<open>Array primitives\<close>

text \<open>Sequencing of computations that may raise.\<close>

definition and_then :: "error + 'a \<Rightarrow> ('a \<Rightarrow> error + 'b) \<Rightarrow> error + 'b" where
  "and_then r f = (case r of Inl e \<Rightarrow> Inl e | Inr x \<Rightarrow> f x)"

text \<open>\<open>np.max\<close> raises on an empty array.\<close>

definition np_max :: "int list \<Rightarrow> error + int" where
  "np_max xs = (case xs of [] \<Rightarrow> Inl EmptyReduction | x # ys \<Rightarrow> Inr (fold max ys x))"

text \<open>
  \<open>tf.reduce_max\<close> returns the identity of \<open>max\<close>, the lowest value of the element
  type (here 32-bit integers), on an empty tensor.
\<close>

definition tf_reduce_max :: "int list \<Rightarrow> int" where
  "tf_reduce_max xs = fold max xs (- (2 ^ 31))"

text \<open>\<open>np.ones([b, t])\<close> and \<open>tf.ones\<close>: a negative dimension is refused.\<close>

definition ones :: "nat \<Rightarrow> int \<Rightarrow> error + matrix" where
  "ones b t = (if t < 0 then Inl NegativeDimension else Inr (replicate b (replicate (nat t) 1)))"

text \<open>\<open>np.arange(t)\<close>: empty when \<open>t\<close> is not positive.\<close>

definition arange :: "int \<Rightarrow> int list" where
  "arange t = map int [0..<nat t]"

text \<open>
  Broadcasting along the batch axis of an operation between two containers with
  \<open>length xs\<close> and \<open>length ys\<close> rows: equal sizes pair up, a size of one is repeated,
  anything else raises.
\<close>

definition broadcast_rows :: "('a \<Rightarrow> 'b \<Rightarrow> 'c) \<Rightarrow> 'a list \<Rightarrow> 'b list \<Rightarrow> error + 'c list" where
  "broadcast_rows f xs ys =
     (if length xs = length ys then Inr (map2 f xs ys)
      else if length xs = 1 then Inr (map (f (hd xs)) ys)
      else if length ys = 1 then Inr (map (\<lambda>x. f x (hd ys)) xs)
      else Inl ShapeError)"

text \<open>\<open>np.cumprod\<close> and \<open>np.cumsum\<close> along a row: running product and running sum.\<close>

fun cumprod_from :: "real \<Rightarrow> real list \<Rightarrow> real list" where
  "cumprod_from acc [] = []"
| "cumprod_from acc (x # xs) = (acc * x) # cumprod_from (acc * x) xs"

definition cumprod :: "real list \<Rightarrow> real list" where
  "cumprod xs = cumprod_from 1 xs"

fun cumsum_from :: "real \<Rightarrow> real list \<Rightarrow> real list" where
  "cumsum_from acc [] = []"
| "cumsum_from acc (x # xs) = (acc + x) # cumsum_from (acc + x) xs"

definition cumsum :: "real list \<Rightarrow> real list" where
  "cumsum xs = cumsum_from 0 xs"

text \<open>
  \<open>tf.scan(fn, elems, initializer)\<close>: the accumulator starts at the initializer, and
  the output holds the accumulator after each element.
\<close>

fun tf_scan :: "('b \<Rightarrow> 'a \<Rightarrow> 'b) \<Rightarrow> 'b \<Rightarrow> 'a list \<Rightarrow> 'b list" where
  "tf_scan fn acc [] = []"
| "tf_scan fn acc (cur # elems) = fn acc cur # tf_scan fn (fn acc cur) elems"

text \<open>
  \<open>tf.sequence_mask(lengths)\<close>: one row per length, as many columns as the largest
  length, 1 where the column index is below the row's length and 0 elsewhere.
\<close>

definition sequence_mask :: "int list \<Rightarrow> matrix" where
  "sequence_mask lengths =
     map (\<lambda>l. map (\<lambda>t. if t < l then 1 else 0) (arange (tf_reduce_max lengths))) lengths"

subsection \<open>The masking collaborator\<close>

text \<open>
  Modelled from the spec: \<open>mask_sequences\<close> (texar.utils.shapes) is imported by the
  module and is not among the sources. The spec describes it as a pure function that
  zeroes every entry at or beyond the corresponding row's length along the time axis,
  in the same way for eager and deferred values, with one length per batch row. A
  batch whose number of rows differs from the number of lengths has no corresponding
  length for some row and is reported as \<open>ShapeError\<close>.
\<close>

definition mask_row :: "real list \<Rightarrow> int \<Rightarrow> real list" where
  "mask_row row l = map (\<lambda>(t, x). if int t < l then x else 0) (enumerate 0 row)"

definition mask_sequences :: "matrix \<Rightarrow> int list \<Rightarrow> error + matrix" where
  "mask_sequences sequence sequence_length =
     (if length sequence = length sequence_length
      then Inr (map2 mask_row sequence sequence_length)
      else Inl ShapeError)"

subsection \<open>The 1D kernel\<close>

text \<open>
  \<open>_discount_reward_py_1d\<close>. Each row of \<open>dmat\<close> is \<open>[discount, ..., discount, 1, ..., 1]\<close>
  before the cumulative product from the end of the row.
\<close>

definition reverse_cumprod :: "matrix \<Rightarrow> matrix" where
  "reverse_cumprod dmat = map (\<lambda>row. rev (cumprod (rev row))) dmat"

definition discount_reward_py_1d :: "ndarray \<Rightarrow> int list option \<Rightarrow> real \<Rightarrow> error + matrix" where
  "discount_reward_py_1d reward sequence_length discount =
     (case sequence_length of
        None \<Rightarrow> Inl MissingLength
      | Some sl \<Rightarrow>
         (case reward of
            Vec r \<Rightarrow>
              let batch_size = length r in
              and_then (np_max sl) (\<lambda>max_seq_length.
              and_then
                (if discount = 1 then ones batch_size max_seq_length
                 else
                   let steps = replicate batch_size (arange max_seq_length) in
                   and_then
                     (broadcast_rows (\<lambda>srow l. map (\<lambda>s. if s < l then 1 else 0) srow)
                        steps (map (\<lambda>l. l - 1) sl))
                     (\<lambda>msk.
                        let dmat = map (map (\<lambda>m. m * discount + (1 - m))) msk
                        in Inr (reverse_cumprod dmat)))
                (\<lambda>dmat.
              and_then (broadcast_rows (\<lambda>drow x. map (\<lambda>w. w * x) drow) dmat r)
                (\<lambda>disc_reward. mask_sequences disc_reward sl)))
          | _ \<Rightarrow> Inl RankMismatch))"

text \<open>
  \<open>_discount_reward_tensor_1d\<close>. The mask of \<open>tf.sequence_mask\<close> is shifted left by one
  column and padded with a zero column.
\<close>

definition shift_mask :: "matrix \<Rightarrow> matrix" where
  "shift_mask msk = map (\<lambda>row. drop 1 row @ map (\<lambda>_. 0) (drop (length row - 1) row)) msk"

definition discount_reward_tensor_1d :: "ndarray \<Rightarrow> int list option \<Rightarrow> real \<Rightarrow> error + matrix" where
  "discount_reward_tensor_1d reward sequence_length discount =
     (case sequence_length of
        None \<Rightarrow> Inl MissingLength
      | Some sl \<Rightarrow>
         (case reward of
            Vec r \<Rightarrow>
              let batch_size = length r;
                  max_seq_length = tf_reduce_max sl
              in
              and_then
                (if discount = 1 then ones batch_size max_seq_length
                 else
                   let msk = shift_mask (sequence_mask sl);
                       dmat = map (map (\<lambda>m. m * discount + (1 - m))) msk
                   in Inr (reverse_cumprod dmat))
                (\<lambda>dmat.
              and_then (broadcast_rows (\<lambda>drow x. map (\<lambda>w. w * x) drow) dmat r)
                (\<lambda>disc_reward. mask_sequences disc_reward sl))
          | _ \<Rightarrow> Inl RankMismatch))"

subsection \<open>The 2D kernel\<close>

text \<open>
  \<open>_discount_reward_py_2d\<close>. The general path copies the reward and runs
  \<open>for i in range(reward.shape[1]-2, -1, -1): disc_reward[:, i] += disc_reward[:, i+1] * discount\<close>.
\<close>

definition premask :: "matrix \<Rightarrow> int list option \<Rightarrow> error + matrix" where
  "premask reward sequence_length =
     (case sequence_length of None \<Rightarrow> Inr reward | Some sl \<Rightarrow> mask_sequences reward sl)"

definition reverse_cumsum :: "matrix \<Rightarrow> matrix" where
  "reverse_cumsum reward = map (\<lambda>row. rev (cumsum (rev row))) reward"

definition add_next_column :: "real \<Rightarrow> matrix \<Rightarrow> nat \<Rightarrow> matrix" where
  "add_next_column discount disc_reward i =
     map (\<lambda>row. row[i := row ! i + row ! (i + 1) * discount]) disc_reward"

definition backward_loop :: "real \<Rightarrow> matrix \<Rightarrow> matrix" where
  "backward_loop discount reward =
     foldl (add_next_column discount) reward (rev [0..<ncols reward - 1])"

definition discount_reward_py_2d :: "ndarray \<Rightarrow> int list option \<Rightarrow> real \<Rightarrow> error + matrix" where
  "discount_reward_py_2d reward sequence_length discount =
     (case reward of
        Mat m \<Rightarrow>
          and_then (premask m sequence_length) (\<lambda>reward.
            if discount = 1 then Inr (reverse_cumsum reward)
            else Inr (backward_loop discount reward))
      | _ \<Rightarrow> Inl RankMismatch)"

text \<open>
  \<open>_discount_reward_tensor_2d\<close>. The general path reverses and transposes the reward to
  time-major order, scans it with \<open>cur + discount * acc\<close> from an accumulator of
  zeros shaped like column 1 of the reward, and transposes and reverses back.
\<close>

definition column :: "matrix \<Rightarrow> nat \<Rightarrow> error + real list" where
  "column m j = (if j < ncols m then Inr (map (\<lambda>row. row ! j) m) else Inl IndexOutOfBounds)"

definition zeros_like :: "real list \<Rightarrow> real list" where
  "zeros_like v = map (\<lambda>_. 0) v"

definition discount_reward_tensor_2d :: "ndarray \<Rightarrow> int list option \<Rightarrow> real \<Rightarrow> error + matrix" where
  "discount_reward_tensor_2d reward sequence_length discount =
     (case reward of
        Mat m \<Rightarrow>
          and_then (premask m sequence_length) (\<lambda>reward.
            if discount = 1 then Inr (reverse_cumsum reward)
            else
              let rev_reward_T = transpose (map rev reward) in
              and_then (column reward 1) (\<lambda>col.
                let rev_reward_T_cum =
                      tf_scan (\<lambda>acc cur. map2 (\<lambda>c a. c + discount * a) cur acc)
                        (zeros_like col) rev_reward_T
                in Inr (map rev (transpose rev_reward_T_cum))))
      | _ \<Rightarrow> Inl RankMismatch)"

subsection \<open>Normalization and the dispatcher\<close>

text \<open>\<open>np.mean\<close> and \<open>np.std\<close> over all entries; \<open>tf.nn.moments\<close> over both axes.\<close>

definition np_mean :: "matrix \<Rightarrow> real" where
  "np_mean a = sum_list (concat a) / real (length (concat a))"

definition np_std :: "matrix \<Rightarrow> real" where
  "np_std a = sqrt (np_mean (map (map (\<lambda>x. \<bar>x - np_mean a\<bar> ^ 2)) a))"

definition tf_moments :: "matrix \<Rightarrow> real \<times> real" where
  "tf_moments a =
     (let mu = sum_list (concat a) / real (length (concat a));
          var = sum_list (concat (map (map (\<lambda>x. (x - mu) * (x - mu))) a))
                  / real (length (concat a))
      in (mu, var))"

definition discount_reward ::
    "ndarray operand \<Rightarrow> int list operand option \<Rightarrow> real \<Rightarrow> bool \<Rightarrow> int \<Rightarrow> error + matrix" where
  "discount_reward reward sequence_length discount normalize_flag tensor_rank =
     (if is_tensor reward \<or> (case sequence_length of None \<Rightarrow> False | Some s \<Rightarrow> is_tensor s) then
        and_then
          (if tensor_rank = 1 then
             discount_reward_tensor_1d (payload reward) (map_option payload sequence_length) discount
           else if tensor_rank = 2 then
             discount_reward_tensor_2d (payload reward) (map_option payload sequence_length) discount
           else Inl TensorRankError)
          (\<lambda>disc_reward.
             if normalize_flag then
               (case tf_moments disc_reward of (mu, var) \<Rightarrow>
                  Inr (map (map (\<lambda>x. (x - mu) / (sqrt var + 1 / 10 ^ 8))) disc_reward))
             else Inr disc_reward)
      else
        let reward = payload reward; tensor_rank = ndim reward in
        and_then
          (if tensor_rank = 1 then
             discount_reward_py_1d reward (map_option payload sequence_length) discount
           else if tensor_rank = 2 then
             discount_reward_py_2d reward (map_option payload sequence_length) discount
           else Inl RewardRankError)
          (\<lambda>disc_reward.
             if normalize_flag then
               (let mu = np_mean disc_reward; std = np_std disc_reward
                in Inr (map (map (\<lambda>x. (x - mu) / (std + 1 / 10 ^ 8))) disc_reward))
             else Inr disc_reward))"

subsection \<open>The backward recurrence on one row\<close>

text \<open>
  One iteration of the loop of the eager 2D kernel on a single row, and the returns of a
  row written as a recursion from its end: the last return is the last reward, and every
  earlier return is the reward plus the discounted next return. The loop is shown below
  to compute exactly this.
\<close>

definition row_step :: "real \<Rightarrow> real list \<Rightarrow> nat \<Rightarrow> real list" where
  "row_step d r i = r[i := r ! i + r ! (i + 1) * d]"

fun row_returns :: "real \<Rightarrow> real list \<Rightarrow> real list" where
  "row_returns d [] = []"
| "row_returns d [x] = [x]"
| "row_returns d (x # y # ys) = (x + hd (row_returns d (y # ys)) * d) # row_returns d (y # ys)"

subsection \<open>The discount weights of one row\<close>

text \<open>
  The row of \<open>dmat\<close> that the eager 1D kernel builds for a sequence of length \<open>l\<close> in a
  batch whose longest sequence has length \<open>T\<close>: ones on the fast path, the reverse
  cumulative product of \<open>[discount, ..., discount, 1, ..., 1]\<close> otherwise.
\<close>

definition py_1d_dmat_row :: "real \<Rightarrow> int \<Rightarrow> int \<Rightarrow> real list" where
  "py_1d_dmat_row d T l =
     (if d = 1 then replicate (nat T) 1
      else rev (cumprod (rev (map (\<lambda>m. m * d + (1 - m))
            (map (\<lambda>s. if s < l - 1 then 1 else 0) (arange T))))))"

subsection \<open>Well-shaped containers and the masking invariant\<close>

text \<open>A rank-2 container is well shaped when its rows have one length.\<close>

fun well_shaped :: "ndarray \<Rightarrow> bool" where
  "well_shaped (Mat m) = rect m"
| "well_shaped a = True"

text \<open>
  The output has one row per sequence length, and every entry at a time index at or
  beyond the row's sequence length is zero.
\<close>

definition padding_is_zero :: "matrix \<Rightarrow> int list \<Rightarrow> bool" where
  "padding_is_zero out sl =
     (length out = length sl \<and>
      (\<forall>i<length out. \<forall>t<length (out ! i). sl ! i \<le> int t \<longrightarrow> out ! i ! t = 0))"

subsection \<open>Input validation\<close>

text \<open>
  The dispatcher works in deferred mode when the reward or the sequence length is a
  tensor. The rank that selects the kernel is \<open>tensor_rank\<close> in deferred mode and the
  dimensionality of the reward in eager mode. The input-validation errors are the three
  \<open>ValueError\<close>s that the module raises itself.
\<close>

definition deferred_mode :: "ndarray operand \<Rightarrow> int list operand option \<Rightarrow> bool" where
  "deferred_mode reward sequence_length =
     (is_tensor reward \<or> (case sequence_length of None \<Rightarrow> False | Some s \<Rightarrow> is_tensor s))"

definition selected_rank :: "ndarray operand \<Rightarrow> int list operand option \<Rightarrow> int \<Rightarrow> int" where
  "selected_rank reward sequence_length tensor_rank =
     (if deferred_mode reward sequence_length then tensor_rank else ndim (payload reward))"

fun is_validation_error :: "error \<Rightarrow> bool" where
  "is_validation_error TensorRankError = True"
| "is_validation_error RewardRankError = True"
| "is_validation_error MissingLength = True"
| "is_validation_error e = False"

subsection \<open>Scaling a reward\<close>

text \<open>Multiplication of every value of a container by a scalar.\<close>

definition scale_matrix :: "real \<Rightarrow> matrix \<Rightarrow> matrix" where
  "scale_matrix c m = map (map ((*) c)) m"

fun scale_array :: "real \<Rightarrow> ndarray \<Rightarrow> ndarray" where
  "scale_array c (Scalar x) = Scalar (c * x)"
| "scale_array c (Vec v) = Vec (map ((*) c) v)"
| "scale_array c (Mat m) = Mat (scale_matrix c m)"
| "scale_array c (Higher n) = Higher n"

section \<open>Properties of the building blocks of the kernels\<close>

subsection \<open>The loop of the eager 2D kernel computes the recurrence\<close>

lemma length_row_returns [simp]: "length (row_returns d xs) = length xs"
  by (induction d xs rule: row_returns.induct) auto

lemma row_returns_Cons:
  "xs \<noteq> [] \<Longrightarrow> row_returns d (x # xs) = (x + hd (row_returns d xs) * d) # row_returns d xs"
  by (cases xs) auto

lemma foldl_add_next_column:
  "foldl (add_next_column d) m is = map (\<lambda>row. foldl (row_step d) row is) m"
  by (induction "is" arbitrary: m) (auto simp: add_next_column_def row_step_def)

lemma row_loop:
  "k \<le> length row - 1 \<Longrightarrow>
   foldl (row_step d) row (rev [k..<length row - 1]) = take k row @ row_returns d (drop k row)"
proof (induction "length row - 1 - k" arbitrary: k)
  case 0
  then have k: "k = length row - 1" by simp
  show ?case
  proof (cases row rule: rev_cases)
    case Nil
    then show ?thesis using k by simp
  next
    case (snoc ys y)
    then show ?thesis using k by simp
  qed
next
  case (Suc j)
  then have lt: "k < length row - 1" by simp
  then have k1: "Suc k < length row" by simp
  have IH: "foldl (row_step d) row (rev [Suc k..<length row - 1])
      = take (Suc k) row @ row_returns d (drop (Suc k) row)"
    using Suc(1) [of "Suc k"] Suc(2) lt by simp
  have ne: "drop (Suc k) row \<noteq> []" using k1 by simp
  have D: "drop k row = row ! k # drop (Suc k) row"
    using k1 by (simp add: Cons_nth_drop_Suc)
  have T: "take (Suc k) row = take k row @ [row ! k]"
    using k1 by (simp add: take_Suc_conv_app_nth)
  have hdD: "(take (Suc k) row @ row_returns d (drop (Suc k) row)) ! Suc k
      = hd (row_returns d (drop (Suc k) row))"
  proof -
    have "row_returns d (drop (Suc k) row) \<noteq> []"
      using ne length_row_returns [of d "drop (Suc k) row"] by (metis length_0_conv)
    then show ?thesis using k1 by (simp add: nth_append hd_conv_nth)
  qed
  have atk: "(take (Suc k) row @ row_returns d (drop (Suc k) row)) ! k = row ! k"
    using k1 by (simp add: nth_append)
  have "foldl (row_step d) row (rev [k..<length row - 1])
      = row_step d (foldl (row_step d) row (rev [Suc k..<length row - 1])) k"
    using lt by (simp add: upt_conv_Cons)
  also have "\<dots> = (take (Suc k) row @ row_returns d (drop (Suc k) row))
      [k := row ! k + hd (row_returns d (drop (Suc k) row)) * d]"
    unfolding IH row_step_def using hdD atk by simp
  also have "\<dots> = take k row @ row_returns d (drop k row)"
    using k1 ne by (simp add: T D row_returns_Cons list_update_append)
  finally show ?case .
qed

lemma backward_loop_rows:
  assumes "rect m"
  shows "backward_loop d m = map (row_returns d) m"
proof -
  have len: "\<And>row. row \<in> set m \<Longrightarrow> length row = ncols m"
    using assms by (cases m) (auto simp: rect_def ncols_def list_all_iff)
  have "foldl (row_step d) row (rev [0..<ncols m - 1]) = row_returns d row"
    if "row \<in> set m" for row
  proof -
    have "length row = ncols m" using len that by simp
    then show ?thesis using row_loop [of 0 row d] by simp
  qed
  then show ?thesis
    by (simp add: backward_loop_def foldl_add_next_column)
qed

subsection \<open>The recurrence, entry by entry\<close>

lemma row_returns_nth_last:
  "xs \<noteq> [] \<Longrightarrow> row_returns d xs ! (length xs - 1) = xs ! (length xs - 1)"
  by (induction d xs rule: row_returns.induct) auto

lemma row_returns_nth_step:
  "Suc t < length xs \<Longrightarrow> row_returns d xs ! t = xs ! t + row_returns d xs ! Suc t * d"
proof (induction d xs arbitrary: t rule: row_returns.induct)
  case (3 d x y ys)
  show ?case
  proof (cases t)
    case 0
    have "row_returns d (y # ys) \<noteq> []"
      using length_row_returns [of d "y # ys"] by (metis length_0_conv list.distinct(1))
    then show ?thesis using 0 by (simp add: hd_conv_nth)
  next
    case (Suc u)
    then show ?thesis using 3 by simp
  qed
qed simp_all

lemma row_returns_zero_tail:
  "t < length xs \<Longrightarrow> (\<forall>k. t \<le> k \<and> k < length xs \<longrightarrow> xs ! k = 0) \<Longrightarrow>
   row_returns d xs ! t = 0"
proof (induction "length xs - t" arbitrary: t)
  case 0
  then show ?case by simp
next
  case (Suc j)
  show ?case
  proof (cases "Suc t < length xs")
    case True
    have "row_returns d xs ! Suc t = 0"
      using Suc(1) [of "Suc t"] Suc(2) Suc(4) True by simp
    then show ?thesis using row_returns_nth_step [OF True, of d] Suc(3) Suc(4) by simp
  next
    case False
    then have "t = length xs - 1" and "xs \<noteq> []" using Suc(3) by auto
    then show ?thesis using row_returns_nth_last [of xs d] Suc(3) Suc(4) by simp
  qed
qed

lemma row_returns_scale:
  "row_returns d (map ((*) c) xs) = map ((*) c) (row_returns d xs)"
proof (induction d xs rule: row_returns.induct)
  case (3 d x y ys)
  have ne: "row_returns d (y # ys) \<noteq> []"
    using length_row_returns [of d "y # ys"] by (metis length_0_conv list.distinct(1))
  show ?case using 3 ne by (simp add: hd_map algebra_simps)
qed simp_all

subsection \<open>Cumulative sums and products from the end of a row\<close>

lemma cumsum_from_snoc:
  "cumsum_from a (xs @ [x]) = cumsum_from a xs @ [a + sum_list xs + x]"
  by (induction xs arbitrary: a) (auto simp: algebra_simps)

lemma cumprod_from_snoc:
  "cumprod_from a (xs @ [x]) = cumprod_from a xs @ [a * prod_list xs * x]"
  by (induction xs arbitrary: a) (auto simp: algebra_simps)

lemma rev_cumsum_rev_Cons:
  "rev (cumsum (rev (x # xs))) = (x + sum_list xs) # rev (cumsum (rev xs))"
  by (simp add: cumsum_def cumsum_from_snoc)

lemma rev_cumprod_rev_Cons:
  "rev (cumprod (rev (x # xs))) = (x * prod_list xs) # rev (cumprod (rev xs))"
  by (simp add: cumprod_def cumprod_from_snoc)

lemma length_rev_cumsum_rev [simp]: "length (rev (cumsum (rev xs))) = length xs"
  by (induction xs) (simp_all add: rev_cumsum_rev_Cons del: rev.simps, simp add: cumsum_def)

lemma length_rev_cumprod_rev [simp]: "length (rev (cumprod (rev xs))) = length xs"
  by (induction xs) (simp_all add: rev_cumprod_rev_Cons del: rev.simps, simp add: cumprod_def)

lemma rev_cumsum_rev_nth:
  "t < length xs \<Longrightarrow> rev (cumsum (rev xs)) ! t = sum_list (drop t xs)"
proof (induction xs arbitrary: t)
  case (Cons x xs)
  then show ?case
    by (cases t) (simp_all add: rev_cumsum_rev_Cons del: rev.simps)
qed simp

lemma rev_cumprod_rev_nth:
  "t < length xs \<Longrightarrow> rev (cumprod (rev xs)) ! t = prod_list (drop t xs)"
proof (induction xs arbitrary: t)
  case (Cons x xs)
  then show ?case
    by (cases t) (simp_all add: rev_cumprod_rev_Cons del: rev.simps)
qed simp

lemma hd_row_returns_one: "xs \<noteq> [] \<Longrightarrow> hd (row_returns 1 xs) = sum_list xs"
  by (induction "1::real" xs rule: row_returns.induct) auto

lemma rev_cumsum_rev_row_returns: "rev (cumsum (rev xs)) = row_returns 1 xs"
proof (induction xs)
  case Nil
  show ?case by (simp add: cumsum_def)
next
  case (Cons x xs)
  show ?case
  proof (cases xs)
    case Nil
    then show ?thesis by (simp add: cumsum_def)
  next
    case (Cons y ys)
    then have "xs \<noteq> []" by simp
    then show ?thesis
      using Cons.IH hd_row_returns_one [of xs]
      by (simp add: rev_cumsum_rev_Cons row_returns_Cons del: rev.simps)
  qed
qed

subsection \<open>Masking and shapes\<close>

lemma length_mask_row [simp]: "length (mask_row row l) = length row"
  by (simp add: mask_row_def)

lemma mask_row_nth:
  "t < length row \<Longrightarrow> mask_row row l ! t = (if int t < l then row ! t else 0)"
  by (simp add: mask_row_def nth_enumerate_eq)

lemma ncols_map_length: "ncols m = (case map length m of [] \<Rightarrow> 0 | n # _ \<Rightarrow> n)"
  by (cases m) (simp_all add: ncols_def)

lemma rect_map_length: "rect m \<longleftrightarrow> (\<forall>n\<in>set (map length m). n = ncols m)"
  by (cases m) (auto simp: rect_def ncols_def list_all_iff)

lemma rect_nth: "rect m \<Longrightarrow> i < length m \<Longrightarrow> length (m ! i) = ncols m"
  by (simp add: rect_map_length)

lemma same_shape_ncols: "map length a = map length b \<Longrightarrow> ncols a = ncols b"
  by (simp add: ncols_map_length)

lemma same_shape_rect: "map length a = map length b \<Longrightarrow> rect a = rect b"
  by (simp add: rect_map_length ncols_map_length)

lemma map_length_map2_mask_row:
  "length m = length sl \<Longrightarrow> map length (map2 mask_row m sl) = map length m"
  by (induction m sl rule: list_induct2) simp_all

lemma mask_sequences_Inr:
  "mask_sequences m sl = Inr masked \<longleftrightarrow> length m = length sl \<and> masked = map2 mask_row m sl"
  by (auto simp: mask_sequences_def)

lemma premask_shape:
  assumes "premask m sl = Inr masked"
  shows "map length masked = map length m"
proof (cases sl)
  case None
  then show ?thesis using assms by (simp add: premask_def)
next
  case (Some l)
  then have "length m = length l" and "masked = map2 mask_row m l"
    using assms by (simp_all add: premask_def mask_sequences_Inr)
  then show ?thesis using map_length_map2_mask_row by blast
qed

lemma premask_length: "premask m sl = Inr masked \<Longrightarrow> length masked = length m"
  using premask_shape [of m sl masked] by (metis length_map)

lemma py_2d_general:
  assumes "rect reward" and "discount \<noteq> 1" and "premask reward sl = Inr masked"
  shows "discount_reward_py_2d (Mat reward) sl discount = Inr (map (row_returns discount) masked)"
proof -
  have "rect masked"
    using assms(1) premask_shape [OF assms(3)] same_shape_rect by blast
  then show ?thesis
    using assms(2,3) by (simp add: discount_reward_py_2d_def and_then_def backward_loop_rows)
qed


subsection \<open>Sequencing and rewards with a single time step\<close>

lemma ncols_one_backward_loop: "ncols m \<le> 1 \<Longrightarrow> backward_loop d m = m"
  by (simp add: backward_loop_def)

lemma and_then_Inr [simp]: "and_then (Inr x) f = f x"
  by (simp add: and_then_def)

lemma and_then_Inl [simp]: "and_then (Inl e) f = Inl e"
  by (simp add: and_then_def)

lemma premask_ncols: "premask m sl = Inr masked \<Longrightarrow> ncols masked = ncols m"
  using premask_shape same_shape_ncols by blast

subsection \<open>The discount weights of the 1D kernel\<close>

lemma np_max_Max: "sl \<noteq> [] \<Longrightarrow> np_max sl = Inr (Max (set sl))"
proof (cases sl)
  case (Cons a list)
  then show ?thesis using Max.set_eq_fold [of a list] by (simp add: np_max_def)
qed simp

lemma length_cumprod_from [simp]: "length (cumprod_from a xs) = length xs"
  by (induction xs arbitrary: a) simp_all

lemma length_cumprod [simp]: "length (cumprod xs) = length xs"
  by (simp add: cumprod_def)

lemma length_cumsum_from [simp]: "length (cumsum_from a xs) = length xs"
  by (induction xs arbitrary: a) simp_all

lemma length_cumsum [simp]: "length (cumsum xs) = length xs"
  by (simp add: cumsum_def)

lemma map2_replicate_left: "map2 f (replicate (length ys) a) ys = map (f a) ys"
  by (induction ys) simp_all

lemma broadcast_rows_same:
  "length xs = length ys \<Longrightarrow> broadcast_rows f xs ys = Inr (map2 f xs ys)"
  by (simp add: broadcast_rows_def)

lemma prod_weights:
  "m \<le> n \<Longrightarrow> prod_list (map (\<lambda>k. if k < m then d else 1) [t..<n]) = (d::real) ^ (m - t)"
proof (induction "n - t" arbitrary: t)
  case 0
  then show ?case by simp
next
  case (Suc j)
  then have lt: "t < n" by simp
  have IH: "prod_list (map (\<lambda>k. if k < m then d else 1) [Suc t..<n]) = d ^ (m - Suc t)"
    using Suc(1) [of "Suc t"] Suc(2,3) by simp
  show ?case
  proof (cases "t < m")
    case True
    then have "m - t = Suc (m - Suc t)" by simp
    then show ?thesis using lt IH True by (simp add: upt_conv_Cons)
  next
    case False
    then show ?thesis using lt IH by (simp add: upt_conv_Cons)
  qed
qed

lemma general_dmat_row:
  assumes "l \<le> T" and "t < nat T"
  shows "rev (cumprod (rev (map (\<lambda>m. m * d + (1 - m))
            (map (\<lambda>s. if s < l - 1 then 1 else 0) (arange T))))) ! t = d ^ (nat (l - 1) - t)"
proof -
  have eq: "map (\<lambda>m. m * d + (1 - m)) (map (\<lambda>s. if s < l - 1 then 1 else 0) (arange T))
      = map (\<lambda>k. if k < nat (l - 1) then d else 1) [0..<nat T]"
    by (auto simp: arange_def)
  have "nat (l - 1) \<le> nat T" using assms(1) by simp
  then have "prod_list (map (\<lambda>k. if k < nat (l - 1) then d else 1) [t..<nat T])
      = d ^ (nat (l - 1) - t)"
    by (rule prod_weights)
  then show ?thesis
    using assms(2) unfolding eq by (simp add: rev_cumprod_rev_nth drop_map)
qed

lemma length_arange [simp]: "length (arange t) = nat t"
  by (simp add: arange_def)

lemma length_general_dmat_row:
  "length (rev (cumprod (rev (map (\<lambda>m. m * d + (1 - m))
            (map (\<lambda>s. if s < l - 1 then 1 else 0) (arange T)))))) = nat T"
  by (simp add: arange_def)

lemma py_1d_dmat_row_length [simp]: "length (py_1d_dmat_row d T l) = nat T"
  by (simp add: py_1d_dmat_row_def length_general_dmat_row)

lemma py_1d_dmat_row_one: "py_1d_dmat_row 1 T = (\<lambda>l. replicate (nat T) 1)"
  by (rule ext) (simp add: py_1d_dmat_row_def)

lemma py_1d_dmat_row_general:
  "d \<noteq> 1 \<Longrightarrow> py_1d_dmat_row d T = (\<lambda>l. rev (cumprod (rev (map (\<lambda>m. m * d + (1 - m))
            (map (\<lambda>s. if s < l - 1 then 1 else 0) (arange T))))))"
  by (rule ext) (simp add: py_1d_dmat_row_def)

lemma py_1d_dmat_row_nth:
  assumes "l \<le> T" and "t < nat T"
  shows "py_1d_dmat_row d T l ! t = d ^ (nat (l - 1) - t)"
proof (cases "d = 1")
  case True
  then show ?thesis using assms(2) by (simp add: py_1d_dmat_row_def)
next
  case False
  then have "py_1d_dmat_row d T l = rev (cumprod (rev (map (\<lambda>m. m * d + (1 - m))
            (map (\<lambda>s. if s < l - 1 then 1 else 0) (arange T)))))"
    by (simp only: py_1d_dmat_row_def if_False)
  then show ?thesis using general_dmat_row [OF assms] by simp
qed

lemma py_1d_dmat:
  assumes "length sl = length reward" and "0 \<le> T"
  shows "(if discount = 1 then ones (length reward) T
          else
            let steps = replicate (length reward) (arange T) in
            and_then
              (broadcast_rows (\<lambda>srow l. map (\<lambda>s. if s < l then 1 else 0) srow)
                 steps (map (\<lambda>l. l - 1) sl))
              (\<lambda>msk.
                 let dmat = map (map (\<lambda>m. m * discount + (1 - m))) msk
                 in Inr (reverse_cumprod dmat)))
         = Inr (map (py_1d_dmat_row discount T) sl)"
proof (cases "discount = 1")
  case True
  have "ones (length reward) T = Inr (map (py_1d_dmat_row 1 T) sl)"
    using assms map_replicate_const [of "replicate (nat T) (1::real)" sl]
    by (simp add: ones_def py_1d_dmat_row_one)
  then show ?thesis using True by simp
next
  case False
  have "map2 (\<lambda>srow l. map (\<lambda>s. if s < l then (1::real) else 0) srow)
          (replicate (length (map (\<lambda>l. l - 1) sl)) (arange T)) (map (\<lambda>l. l - 1) sl)
      = map (\<lambda>l. map (\<lambda>s. if s < l then 1 else 0) (arange T)) (map (\<lambda>l. l - 1) sl)"
    by (rule map2_replicate_left)
  then have gen: "broadcast_rows (\<lambda>srow l. map (\<lambda>s. if s < l then (1::real) else 0) srow)
         (replicate (length reward) (arange T)) (map (\<lambda>l. l - 1) sl)
      = Inr (map (\<lambda>l. map (\<lambda>s. if s < l - 1 then 1 else 0) (arange T)) sl)"
    using assms(1) by (simp add: broadcast_rows_def o_def)
  have cum: "reverse_cumprod (map (map (\<lambda>m. m * discount + (1 - m)))
        (map (\<lambda>l. map (\<lambda>s. if s < l - 1 then 1 else 0) (arange T)) sl))
      = map (py_1d_dmat_row discount T) sl"
    by (simp add: reverse_cumprod_def py_1d_dmat_row_general [OF False] o_def)
  show ?thesis
    using False by (simp only: if_False Let_def gen and_then_Inr cum)
qed

lemma py_1d_unfold:
  assumes "length sl = length reward" and "reward \<noteq> []" and "0 \<le> Max (set sl)"
  shows "discount_reward_py_1d (Vec reward) (Some sl) discount
    = Inr (map2 mask_row
        (map2 (\<lambda>drow x. map (\<lambda>w. w * x) drow)
           (map (py_1d_dmat_row discount (Max (set sl))) sl) reward) sl)"
proof -
  have ne: "sl \<noteq> []" using assms(1,2) by auto
  have len: "length (map (py_1d_dmat_row discount (Max (set sl))) sl) = length reward"
    using assms(1) by simp
  have len2: "length (map2 (\<lambda>drow x. map (\<lambda>w. w * x) drow)
           (map (py_1d_dmat_row discount (Max (set sl))) sl) reward) = length sl"
    using assms(1) by simp
  show ?thesis
    by (simp only: discount_reward_py_1d_def option.case ndarray.case Let_def
        np_max_Max [OF ne] and_then_Inr py_1d_dmat [OF assms(1,3), unfolded Let_def]
        broadcast_rows_same [OF len] mask_sequences_def len2 if_True refl)
qed

subsection \<open>The recurrence is continuous in the discount\<close>

lemma sum_list_drop_nth: "sum_list (drop t xs) = (\<Sum>k = t..<length xs. (xs ! k :: real))"
proof -
  have "sum_list (drop t xs) = (\<Sum>i = 0..<length xs - t. xs ! (t + i))"
    by (simp add: sum_list_sum_nth)
  also have "\<dots> = (\<Sum>k = t..<length xs. xs ! k)"
  proof (cases "t \<le> length xs")
    case True
    then show ?thesis
      using sum.shift_bounds_nat_ivl [of "\<lambda>k. xs ! k" 0 t "length xs - t"]
      by (simp add: add.commute)
  next
    case False
    then show ?thesis by simp
  qed
  finally show ?thesis .
qed

lemma row_returns_continuous:
  "t < length xs \<Longrightarrow> continuous_on UNIV (\<lambda>d. row_returns d xs ! t)"
proof (induction xs arbitrary: t)
  case Nil
  then show ?case by simp
next
  case (Cons x xs)
  show ?case
  proof (cases "xs = []")
    case True
    then show ?thesis by simp
  next
    case False
    then have ne: "\<And>d. row_returns d xs \<noteq> []"
      using length_row_returns by (metis length_0_conv)
    have c0: "continuous_on UNIV (\<lambda>d. row_returns d xs ! 0)"
      using Cons.IH [of 0] False by simp
    show ?thesis
    proof (cases t)
      case 0
      have "continuous_on UNIV (\<lambda>d. x + row_returns d xs ! 0 * d)"
        by (intro continuous_intros c0)
      then show ?thesis using 0 False ne by (simp add: row_returns_Cons hd_conv_nth)
    next
      case (Suc u)
      then have "continuous_on UNIV (\<lambda>d. row_returns d xs ! u)"
        using Cons.IH [of u] Cons.prems by simp
      then show ?thesis using Suc False by (simp add: row_returns_Cons)
    qed
  qed
qed

lemma row_returns_tendsto:
  assumes "t < length xs"
  shows "((\<lambda>d. row_returns d xs ! t) \<longlongrightarrow> row_returns 1 xs ! t) (at 1)"
proof -
  have "isCont (\<lambda>d. row_returns d xs ! t) 1"
    using row_returns_continuous [OF assms] continuous_on_eq_continuous_at [OF open_UNIV]
    by blast
  then show ?thesis by (rule isContD)
qed

lemma py_2d_rows:
  assumes "rect reward" and "premask reward sl = Inr masked"
  shows "discount_reward_py_2d (Mat reward) sl discount = Inr (map (row_returns discount) masked)"
proof (cases "discount = 1")
  case True
  then show ?thesis
    using assms(2)
    by (simp add: discount_reward_py_2d_def reverse_cumsum_def rev_cumsum_rev_row_returns)
next
  case False
  then show ?thesis using assms by (simp add: py_2d_general)
qed

subsection \<open>The scan of the deferred 2D kernel\<close>

lemma length_tf_scan [simp]: "length (tf_scan fn acc elems) = length elems"
  by (induction elems arbitrary: acc) simp_all

lemma tf_scan_snoc:
  "tf_scan fn acc (xs @ [x]) = tf_scan fn acc xs @ [fn (last (acc # tf_scan fn acc xs)) x]"
  by (induction xs arbitrary: acc) simp_all

lemma rev_scan_rev_row_returns:
  "rev (tf_scan (\<lambda>a c. c + d * a) 0 (rev xs)) = row_returns d xs"
proof (induction xs)
  case Nil
  show ?case by simp
next
  case (Cons x xs)
  show ?case
  proof (cases "xs = []")
    case True
    then show ?thesis by simp
  next
    case False
    then have ne: "tf_scan (\<lambda>a c. c + d * a) 0 (rev xs) \<noteq> []"
      using length_tf_scan [of "\<lambda>a c. c + d * a" 0 "rev xs"] by (metis length_0_conv length_rev)
    have "last (tf_scan (\<lambda>a c. c + d * a) 0 (rev xs)) = hd (row_returns d xs)"
      using Cons.IH ne by (metis hd_rev)
    then show ?thesis
      using False ne Cons.IH by (simp add: tf_scan_snoc row_returns_Cons mult.commute)
  qed
qed

lemma vector_scan_nth:
  assumes "\<forall>c\<in>set cols. length c = b" and "length acc = b" and "i < b" and "j < length cols"
  shows "tf_scan (\<lambda>acc cur. map2 (\<lambda>c a. c + d * a) cur acc) acc cols ! j ! i
       = tf_scan (\<lambda>a c. c + d * a) (acc ! i) (map (\<lambda>c. c ! i) cols) ! j"
  using assms
proof (induction cols arbitrary: acc j)
  case Nil
  then show ?case by simp
next
  case (Cons c cols)
  have lc: "length c = b" using Cons.prems(1) by simp
  show ?case
  proof (cases j)
    case 0
    then show ?thesis using Cons.prems lc by simp
  next
    case (Suc k)
    have "length (map2 (\<lambda>c a. c + d * a) c acc) = b" using lc Cons.prems(2) by simp
    then have "tf_scan (\<lambda>acc cur. map2 (\<lambda>c a. c + d * a) cur acc)
          (map2 (\<lambda>c a. c + d * a) c acc) cols ! k ! i
        = tf_scan (\<lambda>a c. c + d * a) (map2 (\<lambda>c a. c + d * a) c acc ! i) (map (\<lambda>c. c ! i) cols) ! k"
      using Cons.IH [of "map2 (\<lambda>c a. c + d * a) c acc" k] Cons.prems Suc by simp
    then show ?thesis using Suc Cons.prems lc by simp
  qed
qed

lemma vector_scan_length:
  assumes "\<forall>c\<in>set cols. length c = b" and "length acc = b" and "j < length cols"
  shows "length (tf_scan (\<lambda>acc cur. map2 (\<lambda>c a. c + d * a) cur acc) acc cols ! j) = b"
  using assms
proof (induction cols arbitrary: acc j)
  case Nil
  then show ?case by simp
next
  case (Cons c cols)
  then show ?case by (cases j) simp_all
qed

lemma transpose_rect:
  assumes "m \<noteq> []" and "\<forall>row\<in>set m. length row = n"
  shows "transpose m = map (\<lambda>j. map (\<lambda>row. row ! j) m) [0..<n]"
proof -
  have "transpose m = map (\<lambda>i. map (\<lambda>j. m ! j ! i) [0..<length m]) [0..<n]"
    using assms by (intro transpose_rectangle) auto
  moreover have "map (\<lambda>j. m ! j ! i) [0..<length m] = map (\<lambda>row. row ! i) m" for i
    by (rule nth_equalityI) simp_all
  ultimately show ?thesis by simp
qed

lemma tensor_scan_rows:
  assumes "m \<noteq> []" and "\<forall>row\<in>set m. length row = n" and "0 < n"
  shows "map rev (transpose (tf_scan (\<lambda>acc cur. map2 (\<lambda>c a. c + d * a) cur acc)
           (replicate (length m) 0) (transpose (map rev m))))
         = map (row_returns d) m"
proof -
  let ?B = "length m"
  let ?cols = "transpose (map rev m)"
  let ?cum = "tf_scan (\<lambda>acc cur. map2 (\<lambda>c a. c + d * a) cur acc) (replicate ?B 0) ?cols"
  have cols: "?cols = map (\<lambda>j. map (\<lambda>row. row ! j) (map rev m)) [0..<n]"
    using assms(1,2) by (intro transpose_rect) auto
  have lcols: "length ?cols = n" by (simp add: cols)
  have ccols: "\<forall>c\<in>set ?cols. length c = ?B" by (auto simp: cols)
  have lcum: "length ?cum = n" using lcols by simp
  have rcum: "\<forall>row\<in>set ?cum. length row = ?B"
  proof
    fix row assume "row \<in> set ?cum"
    then obtain j where "j < length ?cum" and "row = ?cum ! j" by (metis in_set_conv_nth)
    then show "length row = ?B"
      using vector_scan_length [OF ccols, of "replicate ?B 0" j d] by simp
  qed
  have ne: "?cum \<noteq> []" using lcum assms(3) by (metis length_0_conv less_numeral_extra(3))
  have tr: "transpose ?cum = map (\<lambda>i. map (\<lambda>row. row ! i) ?cum) [0..<?B]"
    using ne rcum by (rule transpose_rect)
  show ?thesis
  proof (rule nth_equalityI)
    show "length (map rev (transpose ?cum)) = length (map (row_returns d) m)"
      by (simp add: tr)
  next
    fix i assume "i < length (map rev (transpose ?cum))"
    then have i: "i < ?B" by (simp add: tr)
    have li: "length (m ! i) = n" using assms(2) i by simp
    have coli: "map (\<lambda>c. c ! i) ?cols = rev (m ! i)"
      using i li by (intro nth_equalityI) (simp_all add: cols)
    have "map (\<lambda>row. row ! i) ?cum = tf_scan (\<lambda>a c. c + d * a) 0 (rev (m ! i))"
    proof (rule nth_equalityI)
      show "length (map (\<lambda>row. row ! i) ?cum) = length (tf_scan (\<lambda>a c. c + d * a) 0 (rev (m ! i)))"
        using lcum li by simp
    next
      fix j assume "j < length (map (\<lambda>row. row ! i) ?cum)"
      then have j: "j < length ?cols" by simp
      show "map (\<lambda>row. row ! i) ?cum ! j = tf_scan (\<lambda>a c. c + d * a) 0 (rev (m ! i)) ! j"
        using vector_scan_nth [OF ccols _ i j, of "replicate ?B 0" d] i j coli by simp
    qed
    then show "map rev (transpose ?cum) ! i = map (row_returns d) m ! i"
      using i by (simp add: tr rev_scan_rev_row_returns)
  qed
qed

subsection \<open>Zero padding of the kernel outputs\<close>

lemma and_then_eq_Inr: "and_then r f = Inr y \<longleftrightarrow> (\<exists>x. r = Inr x \<and> f x = Inr y)"
  by (cases r) simp_all

lemma mask_sequences_padding:
  assumes "mask_sequences disc sl = Inr out"
  shows "padding_is_zero out sl"
proof -
  have len: "length disc = length sl" and out: "out = map2 mask_row disc sl"
    using assms by (simp_all add: mask_sequences_Inr)
  show ?thesis
    unfolding padding_is_zero_def
  proof (intro conjI allI impI)
    show "length out = length sl" using len out by simp
  next
    fix i t assume "i < length out" and "t < length (out ! i)" and "sl ! i \<le> int t"
    then show "out ! i ! t = 0" using len out by (simp add: mask_row_nth)
  qed
qed

lemma padding_is_zeroD:
  "padding_is_zero out sl \<Longrightarrow> i < length out \<Longrightarrow> t < length (out ! i) \<Longrightarrow> sl ! i \<le> int t
   \<Longrightarrow> out ! i ! t = 0"
  by (simp add: padding_is_zero_def)

lemma row_returns_masked_padding:
  assumes "length m = length sl"
  shows "padding_is_zero (map (row_returns d) (map2 mask_row m sl)) sl"
  unfolding padding_is_zero_def
proof (intro conjI allI impI)
  show "length (map (row_returns d) (map2 mask_row m sl)) = length sl"
    using assms by simp
next
  fix i t
  assume i: "i < length (map (row_returns d) (map2 mask_row m sl))"
    and t: "t < length (map (row_returns d) (map2 mask_row m sl) ! i)"
    and le: "sl ! i \<le> int t"
  have i': "i < length m" using i assms by simp
  have row: "map (row_returns d) (map2 mask_row m sl) ! i
      = row_returns d (mask_row (m ! i) (sl ! i))"
    using i' assms by simp
  have t': "t < length (mask_row (m ! i) (sl ! i))" using t unfolding row by simp
  have "\<forall>k. t \<le> k \<and> k < length (mask_row (m ! i) (sl ! i))
      \<longrightarrow> mask_row (m ! i) (sl ! i) ! k = 0"
    using le by (auto simp: mask_row_nth)
  then show "map (row_returns d) (map2 mask_row m sl) ! i ! t = 0"
    unfolding row using t' by (intro row_returns_zero_tail)
qed

lemma tensor_2d_rows:
  assumes "rect reward" and "discount_reward_tensor_2d (Mat reward) sl discount = Inr out"
  shows "\<exists>masked. premask reward sl = Inr masked \<and> out = map (row_returns discount) masked"
proof -
  from assms(2) obtain masked where p: "premask reward sl = Inr masked"
    by (cases "premask reward sl") (simp_all add: discount_reward_tensor_2d_def)
  have rm: "rect masked"
    using assms(1) premask_shape [OF p] same_shape_rect by blast
  show ?thesis
  proof (cases "discount = 1")
    case True
    then have "out = map (row_returns discount) masked"
      using assms(2) p
      by (simp add: discount_reward_tensor_2d_def reverse_cumsum_def rev_cumsum_rev_row_returns)
    then show ?thesis using p by simp
  next
    case False
    have nc: "1 < ncols masked"
      using assms(2) p False
      by (simp add: discount_reward_tensor_2d_def column_def split: if_splits)
    then have ne: "masked \<noteq> []" by (auto simp: ncols_def)
    have rows: "\<forall>row\<in>set masked. length row = ncols masked"
      using rm by (simp add: rect_map_length)
    have "out = map rev (transpose (tf_scan (\<lambda>acc cur. map2 (\<lambda>c a. c + discount * a) cur acc)
           (replicate (length masked) 0) (transpose (map rev masked))))"
      using assms(2) p False nc
      by (simp add: discount_reward_tensor_2d_def column_def zeros_like_def map_replicate_const)
    then have "out = map (row_returns discount) masked"
      using tensor_scan_rows [OF ne rows, of discount] nc by simp
    then show ?thesis using p by simp
  qed
qed

lemma py_2d_rows_Inr:
  assumes "rect reward" and "discount_reward_py_2d (Mat reward) sl discount = Inr out"
  shows "\<exists>masked. premask reward sl = Inr masked \<and> out = map (row_returns discount) masked"
proof -
  from assms(2) obtain masked where p: "premask reward sl = Inr masked"
    by (cases "premask reward sl") (simp_all add: discount_reward_py_2d_def)
  then show ?thesis using py_2d_rows [OF assms(1) p, of discount] assms(2) by simp
qed

lemma rows_padding:
  assumes "premask reward (Some sl) = Inr masked"
  shows "padding_is_zero (map (row_returns d) masked) sl"
proof -
  have "length reward = length sl" and "masked = map2 mask_row reward sl"
    using assms by (simp_all add: premask_def mask_sequences_Inr)
  then show ?thesis using row_returns_masked_padding by simp
qed

lemma py_1d_padding:
  assumes "discount_reward_py_1d reward (Some sl) discount = Inr out"
  shows "padding_is_zero out sl"
proof (cases reward)
  case (Vec r)
  then obtain disc where "mask_sequences disc sl = Inr out"
    using assms by (auto simp: discount_reward_py_1d_def and_then_eq_Inr Let_def)
  then show ?thesis by (rule mask_sequences_padding)
qed (use assms in \<open>simp_all add: discount_reward_py_1d_def\<close>)

lemma tensor_1d_padding:
  assumes "discount_reward_tensor_1d reward (Some sl) discount = Inr out"
  shows "padding_is_zero out sl"
proof (cases reward)
  case (Vec r)
  then obtain disc where "mask_sequences disc sl = Inr out"
    using assms by (auto simp: discount_reward_tensor_1d_def and_then_eq_Inr Let_def)
  then show ?thesis by (rule mask_sequences_padding)
qed (use assms in \<open>simp_all add: discount_reward_tensor_1d_def\<close>)

lemma py_2d_padding:
  assumes "well_shaped reward" and "discount_reward_py_2d reward (Some sl) discount = Inr out"
  shows "padding_is_zero out sl"
proof (cases reward)
  case (Mat m)
  then show ?thesis
    using assms py_2d_rows_Inr [of m "Some sl" discount out] rows_padding by auto
qed (use assms in \<open>simp_all add: discount_reward_py_2d_def\<close>)

lemma tensor_2d_padding:
  assumes "well_shaped reward" and "discount_reward_tensor_2d reward (Some sl) discount = Inr out"
  shows "padding_is_zero out sl"
proof (cases reward)
  case (Mat m)
  then show ?thesis
    using assms tensor_2d_rows [of m "Some sl" discount out] rows_padding by auto
qed (use assms in \<open>simp_all add: discount_reward_tensor_2d_def\<close>)

subsection \<open>The errors of the kernels\<close>

lemma and_then_eq_Inl:
  "and_then r f = Inl e \<longleftrightarrow> r = Inl e \<or> (\<exists>x. r = Inr x \<and> f x = Inl e)"
  by (cases r) simp_all

lemma np_max_error: "np_max sl = Inl e \<Longrightarrow> \<not> is_validation_error e"
  by (cases sl) (auto simp: np_max_def)

lemma ones_error: "ones b t = Inl e \<Longrightarrow> \<not> is_validation_error e"
  by (auto simp: ones_def split: if_splits)

lemma broadcast_rows_error: "broadcast_rows f xs ys = Inl e \<Longrightarrow> \<not> is_validation_error e"
  by (auto simp: broadcast_rows_def split: if_splits)

lemma mask_sequences_error: "mask_sequences m sl = Inl e \<Longrightarrow> \<not> is_validation_error e"
  by (auto simp: mask_sequences_def split: if_splits)

lemma premask_error: "premask m sl = Inl e \<Longrightarrow> \<not> is_validation_error e"
  by (cases sl) (auto simp: premask_def dest: mask_sequences_error)

lemma column_error: "column m j = Inl e \<Longrightarrow> \<not> is_validation_error e"
  by (auto simp: column_def split: if_splits)

lemma py_1d_error:
  assumes "discount_reward_py_1d reward (Some sl) d = Inl e"
  shows "\<not> is_validation_error e"
proof (cases reward)
  case (Vec r)
  then show ?thesis
    using assms
    by (auto simp: discount_reward_py_1d_def and_then_eq_Inl Let_def
        dest: np_max_error ones_error broadcast_rows_error mask_sequences_error
        split: if_splits)
qed (use assms in \<open>auto simp: discount_reward_py_1d_def\<close>)

lemma tensor_1d_error:
  assumes "discount_reward_tensor_1d reward (Some sl) d = Inl e"
  shows "\<not> is_validation_error e"
proof (cases reward)
  case (Vec r)
  then show ?thesis
    using assms
    by (auto simp: discount_reward_tensor_1d_def and_then_eq_Inl Let_def
        dest: ones_error broadcast_rows_error mask_sequences_error
        split: if_splits)
qed (use assms in \<open>auto simp: discount_reward_tensor_1d_def\<close>)

lemma py_2d_error:
  assumes "discount_reward_py_2d reward sl d = Inl e"
  shows "\<not> is_validation_error e"
proof (cases reward)
  case (Mat m)
  then show ?thesis
    using assms
    by (auto simp: discount_reward_py_2d_def and_then_eq_Inl dest: premask_error split: if_splits)
qed (use assms in \<open>auto simp: discount_reward_py_2d_def\<close>)

lemma tensor_2d_error:
  assumes "discount_reward_tensor_2d reward sl d = Inl e"
  shows "\<not> is_validation_error e"
proof (cases reward)
  case (Mat m)
  then show ?thesis
    using assms
    by (auto simp: discount_reward_tensor_2d_def and_then_eq_Inl Let_def
        dest: premask_error column_error split: if_splits)
qed (use assms in \<open>auto simp: discount_reward_tensor_2d_def\<close>)

lemma py_1d_missing: "discount_reward_py_1d reward None d = Inl MissingLength"
  by (simp add: discount_reward_py_1d_def)

lemma tensor_1d_missing: "discount_reward_tensor_1d reward None d = Inl MissingLength"
  by (simp add: discount_reward_tensor_1d_def)

lemma and_then_total:
  assumes "\<And>x. \<exists>y. f x = Inr y"
  shows "and_then r f = Inl e \<longleftrightarrow> r = Inl e"
proof (cases r)
  case (Inr x)
  then show ?thesis using assms [of x] by auto
qed simp

lemma dispatcher_kernel:
  "discount_reward reward sl d n tensor_rank = Inl e \<longleftrightarrow>
     (if deferred_mode reward sl then
        (if tensor_rank = 1 then discount_reward_tensor_1d (payload reward) (map_option payload sl) d
         else if tensor_rank = 2 then discount_reward_tensor_2d (payload reward) (map_option payload sl) d
         else Inl TensorRankError)
      else
        (if ndim (payload reward) = 1 then discount_reward_py_1d (payload reward) (map_option payload sl) d
         else if ndim (payload reward) = 2 then discount_reward_py_2d (payload reward) (map_option payload sl) d
         else Inl RewardRankError)) = Inl e"
proof (cases "deferred_mode reward sl")
  case True
  have "\<exists>y. (if n then (case tf_moments x of (mu, var) \<Rightarrow>
                  Inr (map (map (\<lambda>x. (x - mu) / (sqrt var + 1 / 10 ^ 8))) x))
             else Inr x) = (Inr y :: error + matrix)" for x
    by (simp add: case_prod_beta)
  from and_then_total [of _ _ e, OF this] show ?thesis
    using True unfolding discount_reward_def deferred_mode_def by (simp only: if_True)
next
  case False
  have "\<exists>y. (if n then (let mu = np_mean x; std = np_std x
                in Inr (map (map (\<lambda>x. (x - mu) / (std + 1 / 10 ^ 8))) x))
             else Inr x) = (Inr y :: error + matrix)" for x
    by (simp add: Let_def)
  from and_then_total [of _ _ e, OF this] show ?thesis
    using False unfolding discount_reward_def deferred_mode_def by (simp only: if_False Let_def)
qed

subsection \<open>Scaling the reward\<close>

lemma and_then_map_sum:
  assumes "\<And>x. g x = map_sum id s (f x)"
  shows "and_then r g = map_sum id s (and_then r f)"
  by (cases r) (simp_all add: assms)

lemma and_then_map_sum_arg:
  assumes "\<And>x. g (s x) = map_sum id t (f x)"
  shows "and_then (map_sum id s r) g = map_sum id t (and_then r f)"
  by (cases r) (simp_all add: assms)

lemma mask_row_scale: "mask_row (map ((*) c) row) l = map ((*) c) (mask_row row l)"
  by (rule nth_equalityI) (simp_all add: mask_row_nth)

lemma map2_mask_row_scale:
  "length m = length sl \<Longrightarrow>
   map2 mask_row (scale_matrix c m) sl = scale_matrix c (map2 mask_row m sl)"
  by (induction m sl rule: list_induct2) (simp_all add: scale_matrix_def mask_row_scale)

lemma mask_sequences_scale:
  "mask_sequences (scale_matrix c m) sl = map_sum id (scale_matrix c) (mask_sequences m sl)"
proof (cases "length m = length sl")
  case True
  then have "length (scale_matrix c m) = length sl" by (simp add: scale_matrix_def)
  then show ?thesis using True by (simp add: mask_sequences_def map2_mask_row_scale)
next
  case False
  then have "length (scale_matrix c m) \<noteq> length sl" by (simp add: scale_matrix_def)
  then show ?thesis using False by (simp add: mask_sequences_def)
qed

lemma premask_scale:
  "premask (scale_matrix c m) sl = map_sum id (scale_matrix c) (premask m sl)"
  by (cases sl) (simp_all add: premask_def mask_sequences_scale)

lemma weight_row_scale:
  "map (\<lambda>w. w * (c * x)) drow = map ((*) c) (map (\<lambda>w. w * (x::real)) drow)"
  by (simp add: algebra_simps)

lemma map2_weight_scale:
  "length dm = length r \<Longrightarrow>
   map2 (\<lambda>drow x. map (\<lambda>w. w * x) drow) dm (map ((*) c) r)
     = scale_matrix c (map2 (\<lambda>drow x. map (\<lambda>w. w * (x::real)) drow) dm r)"
proof (induction dm r rule: list_induct2)
  case Nil
  show ?case by (simp add: scale_matrix_def)
next
  case (Cons drow dm x r)
  then show ?case using weight_row_scale [of c x drow] by (simp add: scale_matrix_def)
qed

lemma broadcast_weight_scale:
  "broadcast_rows (\<lambda>drow x. map (\<lambda>w. w * x) drow) dm (map ((*) c) r)
     = map_sum id (scale_matrix c) (broadcast_rows (\<lambda>drow x. map (\<lambda>w. w * (x::real)) drow) dm r)"
proof (cases "length dm = length r")
  case True
  then show ?thesis by (simp add: broadcast_rows_def map2_weight_scale)
next
  case ne: False
  show ?thesis
  proof (cases "length dm = 1")
    case True
    have "map (\<lambda>x. map (\<lambda>w. w * x) (hd dm)) (map ((*) c) r)
        = scale_matrix c (map (\<lambda>x. map (\<lambda>w. w * x) (hd dm)) r)"
      by (simp add: scale_matrix_def o_def algebra_simps)
    then show ?thesis using ne True by (simp add: broadcast_rows_def)
  next
    case False
    show ?thesis
    proof (cases "length r = 1")
      case True
      then obtain x where r: "r = [x]" by (cases r) auto
      have "map (\<lambda>drow. map (\<lambda>w. w * (c * x)) drow) dm
          = scale_matrix c (map (\<lambda>drow. map (\<lambda>w. w * x) drow) dm)"
        by (simp add: scale_matrix_def o_def algebra_simps)
      then show ?thesis using ne False r by (simp add: broadcast_rows_def)
    next
      case False
      then show ?thesis using ne \<open>length dm \<noteq> 1\<close> by (simp add: broadcast_rows_def)
    qed
  qed
qed

lemma weighted_mask_scale:
  "and_then (broadcast_rows (\<lambda>drow x. map (\<lambda>w. w * x) drow) dm (map ((*) c) r))
       (\<lambda>disc_reward. mask_sequences disc_reward sl)
     = map_sum id (scale_matrix c)
         (and_then (broadcast_rows (\<lambda>drow x. map (\<lambda>w. w * x) drow) dm r)
            (\<lambda>disc_reward. mask_sequences disc_reward sl))"
  unfolding broadcast_weight_scale
  by (rule and_then_map_sum_arg) (rule mask_sequences_scale)

lemma py_1d_scale:
  "discount_reward_py_1d (scale_array c reward) sl d
     = map_sum id (scale_matrix c) (discount_reward_py_1d reward sl d)"
proof (cases sl)
  case None
  then show ?thesis by (simp add: discount_reward_py_1d_def)
next
  case (Some l)
  show ?thesis
  proof (cases reward)
    case (Vec r)
    show ?thesis
      unfolding Some Vec scale_array.simps discount_reward_py_1d_def option.case ndarray.case
        Let_def length_map
      by (intro and_then_map_sum weighted_mask_scale)
  qed (simp_all add: Some discount_reward_py_1d_def)
qed

lemma tensor_1d_scale:
  "discount_reward_tensor_1d (scale_array c reward) sl d
     = map_sum id (scale_matrix c) (discount_reward_tensor_1d reward sl d)"
proof (cases sl)
  case None
  then show ?thesis by (simp add: discount_reward_tensor_1d_def)
next
  case (Some l)
  show ?thesis
  proof (cases reward)
    case (Vec r)
    show ?thesis
      unfolding Some Vec scale_array.simps discount_reward_tensor_1d_def option.case ndarray.case
        Let_def length_map
      by (intro and_then_map_sum weighted_mask_scale)
  qed (simp_all add: Some discount_reward_tensor_1d_def)
qed

lemma scale_shape: "map length (scale_matrix c m) = map length m"
  by (simp add: scale_matrix_def)

lemma rect_scale: "rect (scale_matrix c m) = rect m"
  using scale_shape by (rule same_shape_rect)

lemma ncols_scale: "ncols (scale_matrix c m) = ncols m"
  using scale_shape by (rule same_shape_ncols)

lemma rows_scale:
  "map (row_returns d) (scale_matrix c m) = scale_matrix c (map (row_returns d) m)"
  by (simp add: scale_matrix_def row_returns_scale)

lemma tensor_2d_general:
  assumes "rect reward" and "premask reward sl = Inr masked"
  shows "discount_reward_tensor_2d (Mat reward) sl discount
    = (if discount \<noteq> 1 \<and> ncols reward < 2 then Inl IndexOutOfBounds
       else Inr (map (row_returns discount) masked))"
proof -
  have rm: "rect masked"
    using assms(1) premask_shape [OF assms(2)] same_shape_rect by blast
  have nc: "ncols masked = ncols reward" using assms(2) by (rule premask_ncols)
  show ?thesis
  proof (cases "discount = 1")
    case True
    then show ?thesis
      using assms(2)
      by (simp add: discount_reward_tensor_2d_def reverse_cumsum_def rev_cumsum_rev_row_returns)
  next
    case d: False
    show ?thesis
    proof (cases "ncols reward < 2")
      case True
      then show ?thesis
        using d assms(2) nc by (simp add: discount_reward_tensor_2d_def column_def)
    next
      case False
      then have two: "1 < ncols masked" using nc by simp
      then have ne: "masked \<noteq> []" by (auto simp: ncols_def)
      have rows: "\<forall>row\<in>set masked. length row = ncols masked"
        using rm by (simp add: rect_map_length)
      have "discount_reward_tensor_2d (Mat reward) sl discount
          = Inr (map rev (transpose (tf_scan (\<lambda>acc cur. map2 (\<lambda>c a. c + discount * a) cur acc)
              (replicate (length masked) 0) (transpose (map rev masked)))))"
        using d assms(2) two
        by (simp add: discount_reward_tensor_2d_def column_def zeros_like_def map_replicate_const)
      then show ?thesis
        using tensor_scan_rows [OF ne rows, of discount] two False d by simp
    qed
  qed
qed

lemma py_2d_scale:
  assumes "well_shaped reward"
  shows "discount_reward_py_2d (scale_array c reward) sl d
     = map_sum id (scale_matrix c) (discount_reward_py_2d reward sl d)"
proof (cases reward)
  case (Mat m)
  then have r: "rect m" using assms by simp
  show ?thesis
  proof (cases "premask m sl")
    case (Inl e)
    then have "premask (scale_matrix c m) sl = Inl e" by (simp add: premask_scale)
    then show ?thesis using Inl Mat by (simp add: discount_reward_py_2d_def)
  next
    case (Inr masked)
    then have "premask (scale_matrix c m) sl = Inr (scale_matrix c masked)"
      by (simp add: premask_scale)
    then show ?thesis
      using Inr Mat r py_2d_rows [of m sl masked d]
        py_2d_rows [of "scale_matrix c m" sl "scale_matrix c masked" d]
      by (simp add: rect_scale rows_scale)
  qed
qed (simp_all add: discount_reward_py_2d_def)

lemma tensor_2d_scale:
  assumes "well_shaped reward"
  shows "discount_reward_tensor_2d (scale_array c reward) sl d
     = map_sum id (scale_matrix c) (discount_reward_tensor_2d reward sl d)"
proof (cases reward)
  case (Mat m)
  then have r: "rect m" using assms by simp
  show ?thesis
  proof (cases "premask m sl")
    case (Inl e)
    then have "premask (scale_matrix c m) sl = Inl e" by (simp add: premask_scale)
    then show ?thesis using Inl Mat by (simp add: discount_reward_tensor_2d_def)
  next
    case (Inr masked)
    then have "premask (scale_matrix c m) sl = Inr (scale_matrix c masked)"
      by (simp add: premask_scale)
    then show ?thesis
      using Inr Mat r tensor_2d_general [of m sl masked d]
        tensor_2d_general [of "scale_matrix c m" sl "scale_matrix c masked" d]
      by (simp add: rect_scale rows_scale ncols_scale)
  qed
qed (simp_all add: discount_reward_tensor_2d_def)

lemma ndim_scale [simp]: "ndim (scale_array c a) = ndim a"
  by (cases a) simp_all

lemma well_shaped_scale: "well_shaped (scale_array c a) = well_shaped a"
  by (cases a) (simp_all add: rect_scale)

lemma is_tensor_map [simp]: "is_tensor (map_operand f x) = is_tensor x"
  by (cases x) simp_all

lemma payload_map [simp]: "payload (map_operand f x) = f (payload x)"
  by (cases x) simp_all

lemma and_then_Inr_id: "and_then r Inr = r"
  by (cases r) simp_all

subsection \<open>Mean and standard deviation of a standardized container\<close>

lemma concat_map_map: "concat (map (map f) a) = map f (concat a)"
  by (simp add: map_concat)

lemma sum_list_map_divide:
  "sum_list (map (\<lambda>x. f x / c) xs) = sum_list (map f xs) / (c::real)"
  by (induction xs) (simp_all add: add_divide_distrib)

lemma sum_list_map_minus_const:
  "sum_list (map (\<lambda>x. x - m) xs) = sum_list xs - real (length xs) * (m::real)"
  by (induction xs) (simp_all add: algebra_simps)

lemma np_mean_standardized:
  assumes "concat k \<noteq> []"
  shows "np_mean (map (map (\<lambda>x. (x - np_mean k) / c)) k) = 0"
proof -
  have n: "real (length (concat k)) \<noteq> 0" using assms by simp
  have "sum_list (map (\<lambda>x. x - np_mean k) (concat k)) = 0"
    using n by (simp add: sum_list_map_minus_const np_mean_def)
  then show ?thesis
    by (simp add: np_mean_def concat_map_map sum_list_map_divide)
qed

lemma np_std_nonneg: "0 \<le> np_std k"
proof -
  have "0 \<le> sum_list (map (\<lambda>x. \<bar>x - np_mean k\<bar> ^ 2) (concat k))"
    by (rule sum_list_nonneg) auto
  then show ?thesis
    by (simp add: np_std_def np_mean_def concat_map_map)
qed

lemma np_std_standardized:
  assumes "concat k \<noteq> []" and "0 < c"
  shows "np_std (map (map (\<lambda>x. (x - np_mean k) / c)) k) = np_std k / c"
proof -
  let ?out = "map (map (\<lambda>x. (x - np_mean k) / c)) k"
  have m: "np_mean ?out = 0" using assms(1) by (rule np_mean_standardized)
  have "np_mean (map (map (\<lambda>y. \<bar>y - 0\<bar> ^ 2)) ?out)
      = sum_list (map (\<lambda>x. \<bar>x - np_mean k\<bar> ^ 2 / c ^ 2) (concat k)) / real (length (concat k))"
    by (simp add: np_mean_def concat_map_map o_def power_divide)
  also have "\<dots> = sum_list (map (\<lambda>x. \<bar>x - np_mean k\<bar> ^ 2) (concat k)) / c ^ 2
      / real (length (concat k))"
    by (simp only: sum_list_map_divide)
  also have "\<dots> = np_mean (map (map (\<lambda>x. \<bar>x - np_mean k\<bar> ^ 2)) k) / c ^ 2"
    by (simp add: np_mean_def concat_map_map)
  finally have "np_mean (map (map (\<lambda>y. \<bar>y - 0\<bar> ^ 2)) ?out)
      = np_mean (map (map (\<lambda>x. \<bar>x - np_mean k\<bar> ^ 2)) k) / c ^ 2" .
  then have "np_std ?out = sqrt (np_mean (map (map (\<lambda>x. \<bar>x - np_mean k\<bar> ^ 2)) k) / c ^ 2)"
    unfolding np_std_def [of ?out] m by simp
  also have "\<dots> = np_std k / c"
    using assms(2) by (simp add: real_sqrt_divide np_std_def)
  finally show ?thesis .
qed

lemma tf_moments_np: "tf_moments k = (np_mean k, (np_std k) ^ 2)"
proof -
  have "0 \<le> sum_list (map (\<lambda>x. \<bar>x - np_mean k\<bar> ^ 2) (concat k))"
    by (rule sum_list_nonneg) auto
  then have "0 \<le> np_mean (map (map (\<lambda>x. \<bar>x - np_mean k\<bar> ^ 2)) k)"
    by (simp add: np_mean_def concat_map_map)
  then have "(np_std k) ^ 2 = np_mean (map (map (\<lambda>x. \<bar>x - np_mean k\<bar> ^ 2)) k)"
    by (simp add: np_std_def)
  also have "\<dots> = sum_list (concat (map (map (\<lambda>x. (x - np_mean k) * (x - np_mean k))) k))
      / real (length (concat k))"
    by (simp add: np_mean_def concat_map_map power2_eq_square)
  finally show ?thesis
    by (simp add: tf_moments_def Let_def np_mean_def)
qed

lemma normalize_dispatch:
  assumes "discount_reward reward sl d False tensor_rank = Inr k"
  shows "discount_reward reward sl d True tensor_rank
    = Inr (map (map (\<lambda>x. (x - np_mean k) / (np_std k + 1 / 10 ^ 8))) k)"
proof (cases "is_tensor reward \<or> (case sl of None \<Rightarrow> False | Some s \<Rightarrow> is_tensor s)")
  case True
  have s: "\<bar>np_std k\<bar> = np_std k" using np_std_nonneg [of k] by simp
  from assms True have "(if tensor_rank = 1 then
             discount_reward_tensor_1d (payload reward) (map_option payload sl) d
           else if tensor_rank = 2 then
             discount_reward_tensor_2d (payload reward) (map_option payload sl) d
           else Inl TensorRankError) = Inr k"
    by (simp add: discount_reward_def and_then_Inr_id)
  then show ?thesis
    using True by (simp add: discount_reward_def tf_moments_np s)
next
  case False
  from assms False have "(if ndim (payload reward) = 1 then
             discount_reward_py_1d (payload reward) (map_option payload sl) d
           else if ndim (payload reward) = 2 then
             discount_reward_py_2d (payload reward) (map_option payload sl) d
           else Inl RewardRankError) = Inr k"
    by (simp add: discount_reward_def and_then_Inr_id Let_def)
  then show ?thesis
    using False by (simp add: discount_reward_def Let_def)
qed

section \<open>The masking invariant\<close>

text \<open>
  Claim C1, as amended. When normalization is not requested, every output of
  \<open>discount_reward\<close> computed with sequence lengths (1D or 2D kernel, eager or deferred,
  any discount) has one row per sequence length, and every entry at a time index at or
  beyond the row's sequence length is exactly zero.
\<close>

theorem padding_is_zero_without_normalization:
  assumes "discount_reward reward (Some sequence_length) discount False tensor_rank = Inr out"
    and "well_shaped (payload reward)"
  shows "padding_is_zero out (payload sequence_length)"
proof (cases "is_tensor reward \<or> is_tensor sequence_length")
  case True
  then have k: "(if tensor_rank = 1 then
             discount_reward_tensor_1d (payload reward) (Some (payload sequence_length)) discount
           else if tensor_rank = 2 then
             discount_reward_tensor_2d (payload reward) (Some (payload sequence_length)) discount
           else Inl TensorRankError) = Inr out"
    using assms(1) by (simp add: discount_reward_def and_then_eq_Inr cong: if_cong)
  show ?thesis
  proof (cases "tensor_rank = 1")
    case True
    then show ?thesis using k tensor_1d_padding by simp
  next
    case False
    then have "tensor_rank = 2" using k by (simp split: if_splits)
    then show ?thesis using k assms(2) tensor_2d_padding by simp
  qed
next
  case False
  then have k: "(if ndim (payload reward) = 1 then
             discount_reward_py_1d (payload reward) (Some (payload sequence_length)) discount
           else if ndim (payload reward) = 2 then
             discount_reward_py_2d (payload reward) (Some (payload sequence_length)) discount
           else Inl RewardRankError) = Inr out"
    using assms(1) by (simp add: discount_reward_def and_then_eq_Inr Let_def cong: if_cong)
  show ?thesis
  proof (cases "ndim (payload reward) = 1")
    case True
    then show ?thesis using k py_1d_padding by simp
  next
    case False
    then have "ndim (payload reward) = 2" using k by (simp split: if_splits)
    then show ?thesis using k assms(2) py_2d_padding by simp
  qed
qed

theorem padding_is_zero_without_normalization_witness:
  "discount_reward (Py (Mat [[1, 2, 3], [4, 5, 6]])) (Some (Py [2, 3])) (1 / 2) False 1
     = Inr [[2, 2, 0], [8, 8, 6]] \<and>
   well_shaped (payload (Py (Mat [[1, 2, 3], [4, 5, 6]]))) \<and>
   padding_is_zero [[2, 2, 0], [8, 8, 6]] (payload (Py [2, 3]))"
proof -
  have a: "discount_reward (Py (Mat [[1, 2, 3], [4, 5, 6]])) (Some (Py [2, 3])) (1 / 2) False 1
     = Inr [[2, 2, 0], [8, 8, 6]]"
    by (simp add: discount_reward_def discount_reward_py_2d_def premask_def mask_sequences_def
        mask_row_def backward_loop_def ncols_def add_next_column_def upt_rec)
  have b: "well_shaped (payload (Py (Mat [[1, 2, 3], [4, 5, 6]])))"
    by (simp add: rect_def)
  show ?thesis
    using padding_is_zero_without_normalization [OF a b] a b by blast
qed

text \<open>
  With normalization the invariant of claim C1 fails: the global mean is subtracted from
  the padded entries too. For the rewards \<open>[1, 0]\<close> with sequence lengths \<open>[2, 1]\<close> and
  discount 1 the kernel gives \<open>[[1, 1], [0, 0]]\<close>, whose mean and standard deviation
  are both \<open>1/2\<close>, and the padded entry of the second row becomes
  \<open>- 50000000 / 50000001\<close>.
\<close>

theorem normalization_breaks_padding_counterexample:
  "discount_reward (Py (Vec [1, 0])) (Some (Py [2, 1])) 1 True 1
     = Inr [[50000000 / 50000001, 50000000 / 50000001],
            [- (50000000 / 50000001), - (50000000 / 50000001)]] \<and>
   \<not> padding_is_zero [[50000000 / 50000001, 50000000 / 50000001],
            [- (50000000 / 50000001), - (50000000 / 50000001)]] [2, 1]"
proof
  have k: "discount_reward_py_1d (Vec [1, 0]) (Some [2, 1]) 1 = Inr [[1, 1], [0, 0]]"
    by (simp add: discount_reward_py_1d_def np_max_def ones_def broadcast_rows_def
        mask_sequences_def mask_row_def numeral_2_eq_2)
  have mu: "np_mean [[1, 1], [0, 0]] = 1 / 2"
    by (simp add: np_mean_def)
  have "np_mean (map (map (\<lambda>x. \<bar>x - 1 / 2\<bar> ^ 2)) [[1, 1], [0, 0 :: real]]) = 1 / 4"
    by (simp add: np_mean_def power2_eq_square)
  moreover have "sqrt (1 / 4) = 1 / 2"
    by (rule real_sqrt_unique) (simp_all add: power2_eq_square)
  ultimately have sd: "np_std [[1, 1], [0, 0]] = 1 / 2"
    by (simp only: np_std_def mu)
  show "discount_reward (Py (Vec [1, 0])) (Some (Py [2, 1])) 1 True 1
     = Inr [[50000000 / 50000001, 50000000 / 50000001],
            [- (50000000 / 50000001), - (50000000 / 50000001)]]"
    by (simp add: discount_reward_def k mu sd)
  show "\<not> padding_is_zero [[50000000 / 50000001, 50000000 / 50000001],
            [- (50000000 / 50000001), - (50000000 / 50000001)]] [2, 1]"
  proof
    assume "padding_is_zero [[50000000 / 50000001, 50000000 / 50000001],
            [- (50000000 / 50000001), - (50000000 / 50000001 :: real)]] [2, 1]"
    from padding_is_zeroD [OF this, of 1 1]
    have "- (50000000 / 50000001 :: real) = 0" by simp
    then show False by simp
  qed
qed

section \<open>The 2D kernel computes the backward recurrence\<close>

text \<open>
  Claim C2. For a rank-2 reward and a discount other than 1, the output of the eager 2D
  kernel has the shape of the reward, its last column is the last column of the reward
  as it enters the recurrence (the reward itself, or the reward masked by the sequence
  lengths when they are given), and every earlier column satisfies
  \<open>output(row, t) = reward(row, t) + discount * output(row, t + 1)\<close>. In particular the
  reward \<open>[[1, 2, 3]]\<close> with discount \<open>0.5\<close> gives \<open>[[2.75, 3.5, 3.0]]\<close>.
\<close>

theorem py_2d_backward_recurrence:
  assumes "rect reward" and "discount \<noteq> 1" and "premask reward sequence_length = Inr masked"
  shows "(\<exists>out. discount_reward_py_2d (Mat reward) sequence_length discount = Inr out \<and>
            length out = length reward \<and>
            (\<forall>i<length reward. length (out ! i) = ncols reward \<and>
               (0 < ncols reward \<longrightarrow>
                  out ! i ! (ncols reward - 1) = masked ! i ! (ncols reward - 1)) \<and>
               (\<forall>t. Suc t < ncols reward \<longrightarrow>
                  out ! i ! t = masked ! i ! t + discount * out ! i ! Suc t))) \<and>
         discount_reward_py_2d (Mat [[1, 2, 3]]) None (1 / 2) = Inr [[11 / 4, 7 / 2, 3]]"
proof (intro conjI exI allI impI)
  let ?out = "map (row_returns discount) masked"
  have len: "length masked = length reward" using assms(3) by (rule premask_length)
  have "rect masked"
    using assms(1) premask_shape [OF assms(3)] same_shape_rect by blast
  moreover have nc: "ncols masked = ncols reward"
    using premask_shape [OF assms(3)] by (rule same_shape_ncols)
  ultimately have rows: "\<And>i. i < length reward \<Longrightarrow> length (masked ! i) = ncols reward"
    using len by (simp add: rect_nth)
  show "discount_reward_py_2d (Mat reward) sequence_length discount = Inr ?out"
    using assms by (rule py_2d_general)
  show "length ?out = length reward" using len by simp
  show "length (?out ! i) = ncols reward" if "i < length reward" for i
    using that len rows by simp
  show "?out ! i ! (ncols reward - 1) = masked ! i ! (ncols reward - 1)"
    if "i < length reward" and "0 < ncols reward" for i
  proof -
    have l: "length (masked ! i) = ncols reward" using rows that(1) by simp
    then have "masked ! i \<noteq> []" using that(2) by auto
    from row_returns_nth_last [OF this, of discount] show ?thesis
      using that(1) len by (simp add: l)
  qed
  show "?out ! i ! t = masked ! i ! t + discount * ?out ! i ! Suc t"
    if "i < length reward" and "Suc t < ncols reward" for i t
  proof -
    have l: "length (masked ! i) = ncols reward" using rows that(1) by simp
    have "row_returns discount (masked ! i) ! t
        = masked ! i ! t + row_returns discount (masked ! i) ! Suc t * discount"
      using that(2) l by (intro row_returns_nth_step) simp
    then show ?thesis using that(1) len by (simp add: mult.commute)
  qed
  show "discount_reward_py_2d (Mat [[1, 2, 3]]) None (1 / 2) = Inr [[11 / 4, 7 / 2, 3]]"
    by (simp add: discount_reward_py_2d_def and_then_def premask_def backward_loop_def
        ncols_def add_next_column_def upt_rec)
qed

theorem py_2d_backward_recurrence_witness:
  "rect [[1, 2, 3], [4, 5, 6]] \<and> (1 / 2 :: real) \<noteq> 1 \<and>
   premask [[1, 2, 3], [4, 5, 6]] (Some [2, 3]) = Inr [[1, 2, 0], [4, 5, 6]] \<and>
   discount_reward_py_2d (Mat [[1, 2, 3], [4, 5, 6]]) (Some [2, 3]) (1 / 2)
     = Inr [[2, 2, 0], [8, 8, 6]] \<and>
   (\<exists>out. discount_reward_py_2d (Mat [[1, 2, 3], [4, 5, 6]]) (Some [2, 3]) (1 / 2) = Inr out \<and>
      length out = length [[1, 2, 3], [4, 5, 6 :: real]] \<and>
      (\<forall>i<length [[1, 2, 3], [4, 5, 6 :: real]].
         length (out ! i) = ncols [[1, 2, 3], [4, 5, 6]] \<and>
         (0 < ncols [[1, 2, 3], [4, 5, 6]] \<longrightarrow>
            out ! i ! (ncols [[1, 2, 3], [4, 5, 6]] - 1)
              = [[1, 2, 0], [4, 5, 6]] ! i ! (ncols [[1, 2, 3], [4, 5, 6]] - 1)) \<and>
         (\<forall>t. Suc t < ncols [[1, 2, 3], [4, 5, 6]] \<longrightarrow>
            out ! i ! t = [[1, 2, 0], [4, 5, 6]] ! i ! t + 1 / 2 * out ! i ! Suc t)))"
proof -
  have r: "rect [[1, 2, 3], [4, 5, 6]]" by (simp add: rect_def)
  have d: "(1 / 2 :: real) \<noteq> 1" by simp
  have p: "premask [[1, 2, 3], [4, 5, 6]] (Some [2, 3]) = Inr [[1, 2, 0], [4, 5, 6]]"
    by (simp add: premask_def mask_sequences_def mask_row_def)
  have e: "discount_reward_py_2d (Mat [[1, 2, 3], [4, 5, 6]]) (Some [2, 3]) (1 / 2)
     = Inr [[2, 2, 0], [8, 8, 6]]"
    by (simp add: discount_reward_py_2d_def and_then_def p backward_loop_def
        ncols_def add_next_column_def upt_rec)
  from py_2d_backward_recurrence [OF r d p] have c: "\<exists>out. discount_reward_py_2d (Mat [[1, 2, 3], [4, 5, 6]]) (Some [2, 3]) (1 / 2) = Inr out \<and>
      length out = length [[1, 2, 3], [4, 5, 6 :: real]] \<and>
      (\<forall>i<length [[1, 2, 3], [4, 5, 6 :: real]].
         length (out ! i) = ncols [[1, 2, 3], [4, 5, 6]] \<and>
         (0 < ncols [[1, 2, 3], [4, 5, 6]] \<longrightarrow>
            out ! i ! (ncols [[1, 2, 3], [4, 5, 6]] - 1)
              = [[1, 2, 0], [4, 5, 6]] ! i ! (ncols [[1, 2, 3], [4, 5, 6]] - 1)) \<and>
         (\<forall>t. Suc t < ncols [[1, 2, 3], [4, 5, 6]] \<longrightarrow>
            out ! i ! t = [[1, 2, 0], [4, 5, 6]] ! i ! t + 1 / 2 * out ! i ! Suc t))"
    by (rule conjunct1)
  show ?thesis
    by (intro conjI r d p e c)
qed

section \<open>The 1D kernel spreads a scalar reward over time\<close>

text \<open>
  Claim C3. For a rank-1 reward with one sequence length per reward (the largest of them
  not negative), the eager 1D kernel returns a matrix with one row per reward and
  \<open>max(sequence_length)\<close> columns. In the row of a sequence of length \<open>L\<close> with reward
  \<open>R\<close>, the entry at time \<open>t < L - 1\<close> is \<open>R * discount ^ (L - 1 - t)\<close>, the entry at
  \<open>t = L - 1\<close> is \<open>R\<close>, and the entries at \<open>t \<ge> L\<close> are 0. In particular the reward
  \<open>[1.0]\<close> with sequence length \<open>[3]\<close> and discount \<open>0.5\<close> gives \<open>[0.25, 0.5, 1.0]\<close>.
\<close>

theorem py_1d_entries:
  assumes "length sequence_length = length reward" and "reward \<noteq> []"
    and "0 \<le> Max (set sequence_length)"
  shows "(\<exists>out. discount_reward_py_1d (Vec reward) (Some sequence_length) discount = Inr out \<and>
            length out = length reward \<and>
            (\<forall>r<length reward. length (out ! r) = nat (Max (set sequence_length)) \<and>
               (\<forall>t<length (out ! r). out ! r ! t =
                  (if int t < sequence_length ! r - 1
                   then reward ! r * discount ^ (nat (sequence_length ! r - 1) - t)
                   else if int t = sequence_length ! r - 1 then reward ! r
                   else 0)))) \<and>
         discount_reward_py_1d (Vec [1]) (Some [3]) (1 / 2) = Inr [[1 / 4, 1 / 2, 1]]"
proof (intro conjI exI allI impI)
  let ?T = "Max (set sequence_length)"
  let ?out = "map2 mask_row
        (map2 (\<lambda>drow x. map (\<lambda>w. w * x) drow)
           (map (py_1d_dmat_row discount ?T) sequence_length) reward) sequence_length"
  show "discount_reward_py_1d (Vec reward) (Some sequence_length) discount = Inr ?out"
    using assms by (rule py_1d_unfold)
  show "length ?out = length reward" using assms(1) by simp
  have row: "?out ! r = mask_row (map (\<lambda>w. w * reward ! r)
      (py_1d_dmat_row discount ?T (sequence_length ! r))) (sequence_length ! r)"
    if "r < length reward" for r
    using that assms(1) by simp
  show "length (?out ! r) = nat ?T" if "r < length reward" for r
    unfolding row [OF that] by simp
  show "?out ! r ! t =
      (if int t < sequence_length ! r - 1
       then reward ! r * discount ^ (nat (sequence_length ! r - 1) - t)
       else if int t = sequence_length ! r - 1 then reward ! r
       else 0)"
    if "r < length reward" and "t < length (?out ! r)" for r t
  proof -
    have t: "t < nat ?T" using that(2) unfolding row [OF that(1)] by simp
    have "sequence_length ! r \<in> set sequence_length" using that(1) assms(1) by simp
    then have le: "sequence_length ! r \<le> ?T" by simp
    have w: "py_1d_dmat_row discount ?T (sequence_length ! r) ! t
        = discount ^ (nat (sequence_length ! r - 1) - t)"
      using le t by (rule py_1d_dmat_row_nth)
    have z: "nat (sequence_length ! r - 1) - t = 0" if "int t = sequence_length ! r - 1"
      using that by simp
    show ?thesis
      unfolding row [OF that(1)] using t w z by (simp add: mask_row_nth)
  qed
  show "discount_reward_py_1d (Vec [1]) (Some [3]) (1 / 2) = Inr [[1 / 4, 1 / 2, 1]]"
    by (simp add: discount_reward_py_1d_def np_max_def arange_def broadcast_rows_def
        reverse_cumprod_def cumprod_def mask_sequences_def mask_row_def upt_rec)
qed

theorem py_1d_entries_witness:
  "length [3, 2 :: int] = length [1, 2 :: real] \<and> [1, 2 :: real] \<noteq> [] \<and>
   0 \<le> Max (set [3, 2 :: int]) \<and>
   discount_reward_py_1d (Vec [1, 2]) (Some [3, 2]) (1 / 2) = Inr [[1 / 4, 1 / 2, 1], [1, 2, 0]] \<and>
   (\<exists>out. discount_reward_py_1d (Vec [1, 2]) (Some [3, 2]) (1 / 2) = Inr out \<and>
      length out = length [1, 2 :: real] \<and>
      (\<forall>r<length [1, 2 :: real]. length (out ! r) = nat (Max (set [3, 2])) \<and>
         (\<forall>t<length (out ! r). out ! r ! t =
            (if int t < [3, 2] ! r - 1
             then [1, 2] ! r * (1 / 2) ^ (nat ([3, 2] ! r - 1) - t)
             else if int t = [3, 2] ! r - 1 then [1, 2] ! r
             else 0))))"
proof -
  have a: "length [3, 2 :: int] = length [1, 2 :: real]" by simp
  have b: "[1, 2 :: real] \<noteq> []" by simp
  have c: "0 \<le> Max (set [3, 2 :: int])" by simp
  have e: "discount_reward_py_1d (Vec [1, 2]) (Some [3, 2]) (1 / 2)
      = Inr [[1 / 4, 1 / 2, 1], [1, 2, 0]]"
    by (simp add: discount_reward_py_1d_def np_max_def arange_def broadcast_rows_def
        reverse_cumprod_def cumprod_def mask_sequences_def mask_row_def upt_rec)
  note t = py_1d_entries [OF a b c, of "1 / 2", THEN conjunct1]
  show ?thesis by (intro conjI a b c e t)
qed

section \<open>Input validation of the dispatcher\<close>

text \<open>
  Claim C4. \<open>discount_reward\<close> raises an input-validation error exactly when the selected
  rank is 1 and no sequence length is given, or the selected rank is neither 1 nor 2.
  The selected rank is \<open>tensor_rank\<close> in deferred mode and the dimensionality of the reward
  in eager mode. In both cases the result is the error alone, whatever the reward
  values, the discount and the normalize flag are, so it is decided before any numeric
  work and nothing is returned beside it.
\<close>

theorem validation_errors:
  "(selected_rank reward sequence_length tensor_rank = 1 \<and> sequence_length = None \<longrightarrow>
      discount_reward reward sequence_length discount normalize_flag tensor_rank
        = Inl MissingLength) \<and>
   (selected_rank reward sequence_length tensor_rank \<notin> {1, 2} \<longrightarrow>
      discount_reward reward sequence_length discount normalize_flag tensor_rank
        = Inl (if deferred_mode reward sequence_length then TensorRankError else RewardRankError)) \<and>
   ((\<exists>e. discount_reward reward sequence_length discount normalize_flag tensor_rank = Inl e \<and>
         is_validation_error e) \<longleftrightarrow>
      (selected_rank reward sequence_length tensor_rank = 1 \<and> sequence_length = None) \<or>
      selected_rank reward sequence_length tensor_rank \<notin> {1, 2})"
proof -
  have a: "discount_reward reward sequence_length discount normalize_flag tensor_rank
        = Inl MissingLength"
    if "selected_rank reward sequence_length tensor_rank = 1" and "sequence_length = None"
    using that
    by (simp add: dispatcher_kernel selected_rank_def py_1d_missing tensor_1d_missing
        split: if_splits)
  have b: "discount_reward reward sequence_length discount normalize_flag tensor_rank
        = Inl (if deferred_mode reward sequence_length then TensorRankError else RewardRankError)"
    if "selected_rank reward sequence_length tensor_rank \<notin> {1, 2}"
    using that by (simp add: dispatcher_kernel selected_rank_def split: if_splits)
  have c: "(selected_rank reward sequence_length tensor_rank = 1 \<and> sequence_length = None) \<or>
      selected_rank reward sequence_length tensor_rank \<notin> {1, 2}"
    if e: "discount_reward reward sequence_length discount normalize_flag tensor_rank = Inl e"
      and v: "is_validation_error e" for e
  proof (rule ccontr)
    assume n: "\<not> ((selected_rank reward sequence_length tensor_rank = 1 \<and> sequence_length = None) \<or>
      selected_rank reward sequence_length tensor_rank \<notin> {1, 2})"
    show False
    proof (cases "selected_rank reward sequence_length tensor_rank = 1")
      case True
      then obtain s where s: "sequence_length = Some s" using n by (cases sequence_length) auto
      show False
        using e v True s py_1d_error tensor_1d_error
        by (auto simp: dispatcher_kernel selected_rank_def split: if_splits)
    next
      case False
      then have "selected_rank reward sequence_length tensor_rank = 2" using n by simp
      then show False
        using e v py_2d_error tensor_2d_error
        by (auto simp: dispatcher_kernel selected_rank_def split: if_splits)
    qed
  qed
  show ?thesis using a b c by (intro conjI impI iffI) auto
qed

theorem validation_errors_witness:
  "selected_rank (Py (Vec [1])) None 1 = 1 \<and>
   discount_reward (Py (Vec [1])) None 1 False 1 = Inl MissingLength \<and>
   selected_rank (Tensor (Vec [1])) (Some (Py [1])) 3 \<notin> {1, 2} \<and>
   discount_reward (Tensor (Vec [1])) (Some (Py [1])) 1 False 3 = Inl TensorRankError \<and>
   selected_rank (Py (Scalar 1)) None 1 \<notin> {1, 2} \<and>
   discount_reward (Py (Scalar 1)) None 1 False 1 = Inl RewardRankError \<and>
   (\<exists>e. discount_reward (Py (Vec [1])) None 1 False 1 = Inl e \<and> is_validation_error e) \<and>
   \<not> (\<exists>e. discount_reward (Py (Mat [[1]])) None 1 False 1 = Inl e \<and> is_validation_error e)"
proof -
  have r1: "selected_rank (Py (Vec [1])) None 1 = 1"
    and r2: "selected_rank (Tensor (Vec [1])) (Some (Py [1])) 3 \<notin> {1, 2}"
    and r3: "selected_rank (Py (Scalar 1)) None 1 \<notin> {1, 2}"
    and r4: "selected_rank (Py (Mat [[1]])) None 1 = 2"
    and m2: "deferred_mode (Tensor (Vec [1])) (Some (Py [1]))"
    and m3: "\<not> deferred_mode (Py (Scalar 1)) None"
    by (simp_all add: selected_rank_def deferred_mode_def)
  have a: "discount_reward (Py (Vec [1])) None 1 False 1 = Inl MissingLength"
    using validation_errors [of "Py (Vec [1])" None 1 1 False] r1 by simp
  have b: "discount_reward (Tensor (Vec [1])) (Some (Py [1])) 1 False 3 = Inl TensorRankError"
    using validation_errors [of "Tensor (Vec [1])" "Some (Py [1])" 3 1 False] r2 m2 by simp
  have c: "discount_reward (Py (Scalar 1)) None 1 False 1 = Inl RewardRankError"
    using validation_errors [of "Py (Scalar 1)" None 1 1 False] r3 m3 by simp
  have d: "\<exists>e. discount_reward (Py (Vec [1])) None 1 False 1 = Inl e \<and> is_validation_error e"
    using validation_errors [of "Py (Vec [1])" None 1 1 False] r1 by simp
  have e: "\<not> (\<exists>e. discount_reward (Py (Mat [[1]])) None 1 False 1 = Inl e \<and> is_validation_error e)"
    using validation_errors [of "Py (Mat [[1]])" None 1 1 False] r4 by simp
  show ?thesis by (intro conjI r1 r2 r3 a b c d e)
qed

section \<open>Eager and deferred evaluation\<close>

text \<open>
  Over the reals the deferred kernels compute what the eager kernels compute on these
  inputs: a rectangular rank-2 reward on the fast path or with at least two time steps,
  and a non-empty rank-1 reward with one sequence length per reward.
\<close>

lemma tensor_2d_agrees:
  assumes "rect reward" and "discount = 1 \<or> 2 \<le> ncols reward"
  shows "discount_reward_tensor_2d (Mat reward) sl discount
       = discount_reward_py_2d (Mat reward) sl discount"
proof (cases "premask reward sl")
  case (Inl e)
  then show ?thesis by (simp add: discount_reward_tensor_2d_def discount_reward_py_2d_def)
next
  case (Inr masked)
  then show ?thesis
    using assms tensor_2d_general [OF assms(1) Inr, of discount]
      py_2d_rows [OF assms(1) Inr, of discount] by auto
qed

lemma tf_reduce_max_Max:
  assumes "sl \<noteq> []" and "- (2 ^ 31) \<le> Max (set sl)"
  shows "tf_reduce_max sl = Max (set sl)"
proof -
  have "tf_reduce_max sl = Max (set ((- (2 ^ 31)) # sl))"
    unfolding tf_reduce_max_def by (rule Max.set_eq_fold [symmetric])
  also have "\<dots> = max (- (2 ^ 31)) (Max (set sl))"
    using assms(1) by simp
  finally show ?thesis using assms(2) by simp
qed

lemma shifted_mask_row:
  assumes "l \<le> T"
  shows "drop 1 (map (\<lambda>t. if t < l then 1 else 0) (arange T))
           @ map (\<lambda>_. 0) (drop (length (map (\<lambda>t. if t < l then (1::real) else 0) (arange T)) - 1)
                (map (\<lambda>t. if t < l then (1::real) else 0) (arange T)))
         = map (\<lambda>s. if s < l - 1 then 1 else 0) (arange T)"
    (is "?L = ?R")
proof (rule nth_equalityI)
  show "length ?L = length ?R" by simp
next
  fix k
  assume "k < length ?L"
  then have k: "k < nat T" by simp
  show "?L ! k = ?R ! k"
  proof (cases "k < nat T - 1")
    case True
    then show ?thesis using k by (auto simp: nth_append arange_def)
  next
    case False
    then have "k = nat T - 1" using k by simp
    then show ?thesis using k assms by (auto simp: nth_append arange_def)
  qed
qed

lemma tensor_1d_dmat:
  assumes "discount \<noteq> 1" and "\<forall>l\<in>set sl. l \<le> tf_reduce_max sl"
  shows "reverse_cumprod (map (map (\<lambda>m. m * discount + (1 - m))) (shift_mask (sequence_mask sl)))
       = map (py_1d_dmat_row discount (tf_reduce_max sl)) sl"
proof -
  have "shift_mask (sequence_mask sl)
      = map (\<lambda>l. map (\<lambda>s. if s < l - 1 then 1 else 0) (arange (tf_reduce_max sl))) sl"
    unfolding shift_mask_def sequence_mask_def map_map o_def
    using assms(2) by (intro map_cong refl shifted_mask_row) simp
  then show ?thesis
    by (simp add: reverse_cumprod_def py_1d_dmat_row_general [OF assms(1)] o_def)
qed

lemma tensor_1d_agrees:
  assumes "length sl = length reward" and "reward \<noteq> []" and "0 \<le> Max (set sl)"
  shows "discount_reward_tensor_1d (Vec reward) (Some sl) discount
       = discount_reward_py_1d (Vec reward) (Some sl) discount"
proof -
  have ne: "sl \<noteq> []" using assms(1,2) by auto
  have T: "tf_reduce_max sl = Max (set sl)"
    using ne assms(3) by (intro tf_reduce_max_Max) simp_all
  have le: "\<forall>l\<in>set sl. l \<le> tf_reduce_max sl" unfolding T by simp
  have dm: "(if discount = 1 then ones (length reward) (tf_reduce_max sl)
             else Inr (reverse_cumprod (map (map (\<lambda>m. m * discount + (1 - m)))
                    (shift_mask (sequence_mask sl)))))
      = Inr (map (py_1d_dmat_row discount (Max (set sl))) sl)"
  proof (cases "discount = 1")
    case True
    have "ones (length reward) (Max (set sl)) = Inr (map (py_1d_dmat_row 1 (Max (set sl))) sl)"
      using assms(1,3) map_replicate_const [of "replicate (nat (Max (set sl))) (1::real)" sl]
      by (simp add: ones_def py_1d_dmat_row_one)
    then show ?thesis using True T by simp
  next
    case False
    then show ?thesis using tensor_1d_dmat [OF False le] T by simp
  qed
  have len: "length (map (py_1d_dmat_row discount (Max (set sl))) sl) = length reward"
    using assms(1) by simp
  have len2: "length (map2 (\<lambda>drow x. map (\<lambda>w. w * x) drow)
           (map (py_1d_dmat_row discount (Max (set sl))) sl) reward) = length sl"
    using assms(1) by simp
  have "discount_reward_tensor_1d (Vec reward) (Some sl) discount
    = Inr (map2 mask_row
        (map2 (\<lambda>drow x. map (\<lambda>w. w * x) drow)
           (map (py_1d_dmat_row discount (Max (set sl))) sl) reward) sl)"
    by (simp only: discount_reward_tensor_1d_def option.case ndarray.case Let_def
        and_then_Inr dm broadcast_rows_same [OF len] mask_sequences_def len2 if_True refl)
  then show ?thesis using py_1d_unfold [OF assms] by simp
qed

text \<open>
  Claim C5. The eager and the deferred path are claimed to give equal results on equal
  inputs, for the 1D and for the 2D kernel. On the rank-2 reward \<open>[[5]]\<close>, a single time
  step, with discount \<open>0.5\<close> the deferred path fails with an index out of bounds while
  the eager path returns \<open>[[5]]\<close>.
\<close>

theorem mode_divergence_single_step:
  "discount_reward (Tensor (Mat [[5]])) None (1 / 2) False 2 = Inl IndexOutOfBounds \<and>
   discount_reward (Py (Mat [[5]])) None (1 / 2) False 2 = Inr [[5]]"
  by (simp add: discount_reward_def discount_reward_tensor_2d_def discount_reward_py_2d_def
      premask_def column_def ncols_def backward_loop_def)

section \<open>The fast path is the general path at discount 1\<close>

text \<open>
  Claim C6. For a rank-2 reward, the fast path of the eager 2D kernel (discount equal to
  1) returns the reverse cumulative sum of the reward as it enters the recurrence: the
  entry at \<open>(row, t)\<close> is the sum of the rewards of the row at all \<open>t' \<ge> t\<close>. That result
  is what the loop of the general path computes when run with discount 1, and every
  entry of the general-path result converges to the entry of the fast-path result as
  the discount approaches 1 through values other than 1.
\<close>

theorem fast_path_is_limit_of_general_path:
  assumes "rect reward" and "premask reward sequence_length = Inr masked"
  shows "discount_reward_py_2d (Mat reward) sequence_length 1 = Inr (reverse_cumsum masked) \<and>
         reverse_cumsum masked = backward_loop 1 masked \<and>
         (\<forall>d. d \<noteq> 1 \<longrightarrow>
            discount_reward_py_2d (Mat reward) sequence_length d = Inr (backward_loop d masked)) \<and>
         (\<forall>i<length reward. \<forall>t<ncols reward.
            reverse_cumsum masked ! i ! t = (\<Sum>k = t..<ncols reward. masked ! i ! k) \<and>
            ((\<lambda>d. backward_loop d masked ! i ! t) \<longlongrightarrow> reverse_cumsum masked ! i ! t) (at 1))"
proof (intro conjI allI impI)
  have len: "length masked = length reward" using assms(2) by (rule premask_length)
  have rm: "rect masked"
    using assms(1) premask_shape [OF assms(2)] same_shape_rect by blast
  have nc: "ncols masked = ncols reward"
    using premask_shape [OF assms(2)] by (rule same_shape_ncols)
  have rows: "\<And>i. i < length reward \<Longrightarrow> length (masked ! i) = ncols reward"
    using rm nc len by (simp add: rect_nth)
  have loop: "\<And>d. backward_loop d masked = map (row_returns d) masked"
    using rm by (rule backward_loop_rows)
  have fast: "reverse_cumsum masked = map (row_returns 1) masked"
    by (simp add: reverse_cumsum_def rev_cumsum_rev_row_returns)
  show "discount_reward_py_2d (Mat reward) sequence_length 1 = Inr (reverse_cumsum masked)"
    using assms(2) by (simp add: discount_reward_py_2d_def)
  show "reverse_cumsum masked = backward_loop 1 masked"
    by (simp add: fast loop)
  show "discount_reward_py_2d (Mat reward) sequence_length d = Inr (backward_loop d masked)"
    if "d \<noteq> 1" for d
    using that assms(2) by (simp add: discount_reward_py_2d_def)
  show "reverse_cumsum masked ! i ! t = (\<Sum>k = t..<ncols reward. masked ! i ! k)"
    if "i < length reward" and "t < ncols reward" for i t
  proof -
    have "reverse_cumsum masked ! i ! t = sum_list (drop t (masked ! i))"
      using that len rows [OF that(1)] by (simp add: reverse_cumsum_def rev_cumsum_rev_nth)
    then show ?thesis using rows [OF that(1)] by (simp add: sum_list_drop_nth)
  qed
  show "((\<lambda>d. backward_loop d masked ! i ! t) \<longlongrightarrow> reverse_cumsum masked ! i ! t) (at 1)"
    if "i < length reward" and "t < ncols reward" for i t
  proof -
    have "t < length (masked ! i)" using rows [OF that(1)] that(2) by simp
    then have "((\<lambda>d. row_returns d (masked ! i) ! t) \<longlongrightarrow> row_returns 1 (masked ! i) ! t) (at 1)"
      by (rule row_returns_tendsto)
    then show ?thesis using that(1) len by (simp add: loop fast)
  qed
qed

theorem fast_path_is_limit_of_general_path_witness:
  "rect [[1, 2, 3], [4, 5, 6]] \<and>
   premask [[1, 2, 3], [4, 5, 6]] (Some [2, 3]) = Inr [[1, 2, 0], [4, 5, 6]] \<and>
   (1 / 2 :: real) \<noteq> 1 \<and>
   (0 :: nat) < length [[1, 2, 3], [4, 5, 6 :: real]] \<and> (1 :: nat) < ncols [[1, 2, 3], [4, 5, 6]] \<and>
   reverse_cumsum [[1, 2, 0], [4, 5, 6]] = [[3, 2, 0], [15, 11, 6]] \<and>
   discount_reward_py_2d (Mat [[1, 2, 3], [4, 5, 6]]) (Some [2, 3]) 1
     = Inr (reverse_cumsum [[1, 2, 0], [4, 5, 6]]) \<and>
   reverse_cumsum [[1, 2, 0], [4, 5, 6]] = backward_loop 1 [[1, 2, 0], [4, 5, 6]] \<and>
   discount_reward_py_2d (Mat [[1, 2, 3], [4, 5, 6]]) (Some [2, 3]) (1 / 2)
     = Inr (backward_loop (1 / 2) [[1, 2, 0], [4, 5, 6]]) \<and>
   reverse_cumsum [[1, 2, 0], [4, 5, 6]] ! 0 ! 1
     = (\<Sum>k = 1..<ncols [[1, 2, 3], [4, 5, 6]]. [[1, 2, 0], [4, 5, 6]] ! 0 ! k) \<and>
   ((\<lambda>d. backward_loop d [[1, 2, 0], [4, 5, 6]] ! 0 ! 1)
      \<longlongrightarrow> reverse_cumsum [[1, 2, 0], [4, 5, 6]] ! 0 ! 1) (at 1)"
proof -
  have r: "rect [[1, 2, 3], [4, 5, 6]]" by (simp add: rect_def)
  have p: "premask [[1, 2, 3], [4, 5, 6]] (Some [2, 3]) = Inr [[1, 2, 0], [4, 5, 6]]"
    by (simp add: premask_def mask_sequences_def mask_row_def)
  have d: "(1 / 2 :: real) \<noteq> 1" by simp
  have i: "(0 :: nat) < length [[1, 2, 3], [4, 5, 6 :: real]]" by simp
  have t: "(1 :: nat) < ncols [[1, 2, 3], [4, 5, 6]]" by (simp add: ncols_def)
  have e: "reverse_cumsum [[1, 2, 0], [4, 5, 6]] = [[3, 2, 0], [15, 11, 6]]"
    by (simp add: reverse_cumsum_def cumsum_def)
  note th = fast_path_is_limit_of_general_path [OF r p]
  note th1 = th [THEN conjunct1]
  note th2 = th [THEN conjunct2, THEN conjunct1]
  note th3 = th [THEN conjunct2, THEN conjunct2, THEN conjunct1, rule_format, OF d]
  note th4 = th [THEN conjunct2, THEN conjunct2, THEN conjunct2, rule_format, OF i t]
  show ?thesis
    by (intro conjI r p d i t e th1 th2 th3 th4 [THEN conjunct1] th4 [THEN conjunct2])
qed

section \<open>Normalization\<close>

text \<open>
  Claim C7, as amended. When the normalize flag is set, \<open>discount_reward\<close> returns the
  kernel output standardized over the whole batch-by-time result, every entry \<open>x\<close>
  becoming \<open>(x - mean) / (std + 1e-8)\<close> with the mean and the population standard deviation
  of all entries, by the same formula in eager and in deferred mode. When the result
  has at least one entry, the normalized output has mean 0 and standard deviation
  \<open>s / (s + 1e-8)\<close>, where \<open>s\<close> is the standard deviation of the kernel output: close to
  1 when \<open>s\<close> is large against \<open>1e-8\<close>, and 0 when the kernel output is constant.
\<close>

theorem normalization_is_global_standardization:
  assumes "discount_reward reward sequence_length discount False tensor_rank = Inr k"
  shows "\<exists>out. discount_reward reward sequence_length discount True tensor_rank = Inr out \<and>
           out = map (map (\<lambda>x. (x - np_mean k) / (np_std k + 1 / 10 ^ 8))) k \<and>
           (concat k \<noteq> [] \<longrightarrow>
              np_mean out = 0 \<and> np_std out = np_std k / (np_std k + 1 / 10 ^ 8))"
proof -
  have pos: "0 < np_std k + 1 / 10 ^ 8" using np_std_nonneg [of k] by (simp add: add_nonneg_pos)
  show ?thesis
    using normalize_dispatch [OF assms] np_mean_standardized [of k "np_std k + 1 / 10 ^ 8"]
      np_std_standardized [OF _ pos] by blast
qed

theorem normalization_is_global_standardization_witness:
  "discount_reward (Py (Vec [1, 0])) (Some (Py [2, 1])) 1 False 1 = Inr [[1, 1], [0, 0]] \<and>
   concat [[1, 1], [0, 0 :: real]] \<noteq> [] \<and>
   (\<exists>out. discount_reward (Py (Vec [1, 0])) (Some (Py [2, 1])) 1 True 1 = Inr out \<and>
      out = map (map (\<lambda>x. (x - np_mean [[1, 1], [0, 0]]) / (np_std [[1, 1], [0, 0]] + 1 / 10 ^ 8)))
              [[1, 1], [0, 0]] \<and>
      np_mean out = 0 \<and>
      np_std out = np_std [[1, 1], [0, 0]] / (np_std [[1, 1], [0, 0]] + 1 / 10 ^ 8))"
proof -
  have a: "discount_reward (Py (Vec [1, 0])) (Some (Py [2, 1])) 1 False 1 = Inr [[1, 1], [0, 0]]"
    by (simp add: discount_reward_def discount_reward_py_1d_def np_max_def ones_def
        broadcast_rows_def mask_sequences_def mask_row_def numeral_2_eq_2)
  have b: "concat [[1, 1], [0, 0 :: real]] \<noteq> []" by simp
  show ?thesis
    using normalization_is_global_standardization [OF a] a b by blast
qed

text \<open>
  The standard deviation of the normalized output is not always close to 1, as claim C7
  has it: a single reward \<open>[3]\<close> with sequence length \<open>[1]\<close> gives the kernel output
  \<open>[[3]]\<close>, whose standard deviation is 0, and the normalized output \<open>[[0]]\<close> has
  standard deviation 0.
\<close>

theorem constant_output_counterexample:
  "discount_reward (Py (Vec [3])) (Some (Py [1])) 1 True 1 = Inr [[0]] \<and>
   np_mean [[0]] = 0 \<and> np_std [[0]] = 0 \<and> \<bar>np_std [[0]] - 1\<bar> = 1"
proof -
  have k: "discount_reward_py_1d (Vec [3]) (Some [1]) 1 = Inr [[3]]"
    by (simp add: discount_reward_py_1d_def np_max_def ones_def broadcast_rows_def
        mask_sequences_def mask_row_def)
  have mu: "np_mean [[3]] = 3" by (simp add: np_mean_def)
  have sd: "np_std [[3]] = 0" by (simp add: np_std_def np_mean_def)
  have a: "discount_reward (Py (Vec [3])) (Some (Py [1])) 1 True 1 = Inr [[0]]"
    by (simp add: discount_reward_def k mu sd)
  have b: "np_mean [[0]] = 0" by (simp add: np_mean_def)
  have c: "np_std [[0]] = 0" by (simp add: np_std_def np_mean_def)
  show ?thesis using a b c by simp
qed

section \<open>Padded reward does not reach the output of the 2D kernel\<close>

lemma map2_mask_row_cong:
  assumes "length r1 = length r2" and "length sl = length r1"
    and "\<forall>i<length r1. length (r1 ! i) = length (r2 ! i) \<and>
           (\<forall>t<length (r1 ! i). int t < sl ! i \<longrightarrow> r1 ! i ! t = r2 ! i ! t)"
  shows "map2 mask_row r1 sl = map2 mask_row r2 sl"
proof (rule nth_equalityI)
  show "length (map2 mask_row r1 sl) = length (map2 mask_row r2 sl)"
    using assms by simp
next
  fix i assume "i < length (map2 mask_row r1 sl)"
  then have i: "i < length r1" using assms by simp
  have "mask_row (r1 ! i) (sl ! i) = mask_row (r2 ! i) (sl ! i)"
  proof (rule nth_equalityI)
    show "length (mask_row (r1 ! i) (sl ! i)) = length (mask_row (r2 ! i) (sl ! i))"
      using assms(3) i by simp
  next
    fix t assume "t < length (mask_row (r1 ! i) (sl ! i))"
    then have t: "t < length (r1 ! i)" by simp
    then have t2: "t < length (r2 ! i)" using assms(3) i by simp
    show "mask_row (r1 ! i) (sl ! i) ! t = mask_row (r2 ! i) (sl ! i) ! t"
      using assms(3) i t t2 by (simp add: mask_row_nth)
  qed
  then show "map2 mask_row r1 sl ! i = map2 mask_row r2 sl ! i"
    using i assms by simp
qed

text \<open>
  Claim C8. With sequence lengths supplied, two rewards of the same shape that agree at
  every position below the row's sequence length give the same output of the 2D kernel,
  in the eager and in the deferred implementation: the reward is masked before it is
  discounted.
\<close>

theorem padded_reward_ignored:
  assumes "length r1 = length r2" and "length sequence_length = length r1"
    and "\<forall>i<length r1. length (r1 ! i) = length (r2 ! i) \<and>
           (\<forall>t<length (r1 ! i). int t < sequence_length ! i \<longrightarrow> r1 ! i ! t = r2 ! i ! t)"
  shows "discount_reward_py_2d (Mat r1) (Some sequence_length) discount
           = discount_reward_py_2d (Mat r2) (Some sequence_length) discount \<and>
         discount_reward_tensor_2d (Mat r1) (Some sequence_length) discount
           = discount_reward_tensor_2d (Mat r2) (Some sequence_length) discount"
proof -
  have "premask r1 (Some sequence_length) = premask r2 (Some sequence_length)"
    using assms map2_mask_row_cong [OF assms] by (simp add: premask_def mask_sequences_def)
  then show ?thesis
    by (simp add: discount_reward_py_2d_def discount_reward_tensor_2d_def)
qed

theorem padded_reward_ignored_witness:
  "length [[1, 2, 3], [4, 5, 6 :: real]] = length [[1, 2, 9], [4, 8, 7 :: real]] \<and>
   length [2, 1 :: int] = length [[1, 2, 3], [4, 5, 6 :: real]] \<and>
   discount_reward_py_2d (Mat [[1, 2, 3], [4, 5, 6]]) (Some [2, 1]) (1 / 2) = Inr [[2, 2, 0], [4, 0, 0]] \<and>
   discount_reward_py_2d (Mat [[1, 2, 3], [4, 5, 6]]) (Some [2, 1]) (1 / 2)
     = discount_reward_py_2d (Mat [[1, 2, 9], [4, 8, 7]]) (Some [2, 1]) (1 / 2) \<and>
   discount_reward_tensor_2d (Mat [[1, 2, 3], [4, 5, 6]]) (Some [2, 1]) (1 / 2)
     = discount_reward_tensor_2d (Mat [[1, 2, 9], [4, 8, 7]]) (Some [2, 1]) (1 / 2)"
proof -
  have a: "length [[1, 2, 3], [4, 5, 6 :: real]] = length [[1, 2, 9], [4, 8, 7 :: real]]" by simp
  have b: "length [2, 1 :: int] = length [[1, 2, 3], [4, 5, 6 :: real]]" by simp
  have c: "\<forall>i<length [[1, 2, 3], [4, 5, 6 :: real]].
      length ([[1, 2, 3], [4, 5, 6 :: real]] ! i) = length ([[1, 2, 9], [4, 8, 7 :: real]] ! i) \<and>
      (\<forall>t<length ([[1, 2, 3], [4, 5, 6 :: real]] ! i). int t < [2, 1] ! i \<longrightarrow>
         [[1, 2, 3], [4, 5, 6 :: real]] ! i ! t = [[1, 2, 9], [4, 8, 7]] ! i ! t)"
    by (simp add: less_Suc_eq nth_Cons')
  have e: "discount_reward_py_2d (Mat [[1, 2, 3], [4, 5, 6]]) (Some [2, 1]) (1 / 2) = Inr [[2, 2, 0], [4, 0, 0]]"
    by (simp add: discount_reward_py_2d_def premask_def mask_sequences_def mask_row_def
        backward_loop_def ncols_def add_next_column_def upt_rec)
  show ?thesis
    using padded_reward_ignored [OF a b c, of "1 / 2"] a b e by blast
qed

section \<open>The deferred 2D kernel on a reward with a single time step\<close>

text \<open>
  Claim C9. On its general path (discount other than 1) the deferred 2D kernel builds
  the initial accumulator of its scan from column 1 of the reward, so a reward with
  fewer than two time steps makes that index out of bounds, and a reward with at least
  two time steps passes it. On a reward with exactly one time step the eager 2D kernel
  never enters its loop body and returns the reward as it enters the recurrence: the
  reward itself when no sequence length is given, the masked reward otherwise.
\<close>

theorem tensor_2d_needs_two_steps:
  assumes "discount \<noteq> 1"
  shows "(ncols reward < 2 \<longrightarrow>
            discount_reward_tensor_2d (Mat reward) sequence_length discount
              = and_then (premask reward sequence_length) (\<lambda>masked. Inl IndexOutOfBounds)) \<and>
         (2 \<le> ncols reward \<longrightarrow>
            (\<forall>masked. premask reward sequence_length = Inr masked \<longrightarrow>
               (\<exists>out. discount_reward_tensor_2d (Mat reward) sequence_length discount = Inr out))) \<and>
         (ncols reward = 1 \<longrightarrow>
            discount_reward_py_2d (Mat reward) sequence_length discount
              = premask reward sequence_length \<and>
            discount_reward_py_2d (Mat reward) None discount = Inr reward)"
proof (intro conjI impI allI)
  assume lt: "ncols reward < 2"
  show "discount_reward_tensor_2d (Mat reward) sequence_length discount
      = and_then (premask reward sequence_length) (\<lambda>masked. Inl IndexOutOfBounds)"
  proof (cases "premask reward sequence_length")
    case (Inl e)
    then show ?thesis by (simp add: discount_reward_tensor_2d_def)
  next
    case (Inr masked)
    then have "ncols masked < 2" using lt premask_ncols by simp
    then show ?thesis
      using assms Inr by (simp add: discount_reward_tensor_2d_def column_def)
  qed
next
  fix masked
  assume "2 \<le> ncols reward" and p: "premask reward sequence_length = Inr masked"
  then have "1 < ncols masked" using premask_ncols [OF p] by simp
  then show "\<exists>out. discount_reward_tensor_2d (Mat reward) sequence_length discount = Inr out"
    using assms p by (simp add: discount_reward_tensor_2d_def column_def Let_def)
next
  assume one: "ncols reward = 1"
  show "discount_reward_py_2d (Mat reward) sequence_length discount = premask reward sequence_length"
  proof (cases "premask reward sequence_length")
    case (Inl e)
    then show ?thesis by (simp add: discount_reward_py_2d_def)
  next
    case (Inr masked)
    then have "ncols masked \<le> 1" using one premask_ncols by simp
    then show ?thesis
      using assms Inr by (simp add: discount_reward_py_2d_def ncols_one_backward_loop)
  qed
  show "discount_reward_py_2d (Mat reward) None discount = Inr reward"
    using assms one by (simp add: discount_reward_py_2d_def premask_def ncols_one_backward_loop)
qed

theorem tensor_2d_needs_two_steps_witness:
  "(1 / 2 :: real) \<noteq> 1 \<and> ncols [[5], [7]] < 2 \<and> ncols [[5], [7]] = 1 \<and> 2 \<le> ncols [[1, 2, 3]] \<and>
   premask [[1, 2, 3]] (Some [2]) = Inr [[1, 2, 0]] \<and>
   discount_reward_tensor_2d (Mat [[5], [7]]) (Some [1, 0]) (1 / 2) = Inl IndexOutOfBounds \<and>
   discount_reward_py_2d (Mat [[5], [7]]) (Some [1, 0]) (1 / 2) = Inr [[5], [0]] \<and>
   discount_reward_py_2d (Mat [[5], [7]]) None (1 / 2) = Inr [[5], [7]] \<and>
   (\<exists>out. discount_reward_tensor_2d (Mat [[1, 2, 3]]) (Some [2]) (1 / 2) = Inr out)"
proof -
  have d: "(1 / 2 :: real) \<noteq> 1" by simp
  have n1: "ncols [[5], [7]] = 1" and n2: "ncols [[5], [7]] < 2" and n3: "2 \<le> ncols [[1, 2, 3]]"
    by (simp_all add: ncols_def)
  have p1: "premask [[5], [7]] (Some [1, 0]) = Inr [[5], [0]]"
    by (simp add: premask_def mask_sequences_def mask_row_def)
  have p2: "premask [[1, 2, 3]] (Some [2]) = Inr [[1, 2, 0]]"
    by (simp add: premask_def mask_sequences_def mask_row_def)
  note t1 = tensor_2d_needs_two_steps [OF d, of "[[5], [7]]" "Some [1, 0]"]
  note t2 = tensor_2d_needs_two_steps [OF d, of "[[1, 2, 3]]" "Some [2]"]
  have a: "discount_reward_tensor_2d (Mat [[5], [7]]) (Some [1, 0]) (1 / 2) = Inl IndexOutOfBounds"
    using t1 n2 p1 by simp
  have b: "discount_reward_py_2d (Mat [[5], [7]]) (Some [1, 0]) (1 / 2) = Inr [[5], [0]]"
    using t1 n1 p1 by simp
  have c: "discount_reward_py_2d (Mat [[5], [7]]) None (1 / 2) = Inr [[5], [7]]"
    using t1 n1 by simp
  have e: "\<exists>out. discount_reward_tensor_2d (Mat [[1, 2, 3]]) (Some [2]) (1 / 2) = Inr out"
    using t2 n3 p2 by blast
  show ?thesis by (intro conjI d n1 n2 n3 p2 a b c e)
qed

section \<open>Homogeneity in the reward\<close>

text \<open>
  Claim C10. Without normalization \<open>discount_reward\<close> is homogeneous in the reward: for
  every scalar \<open>c\<close>, every sequence length and every discount, multiplying all reward
  values by \<open>c\<close> multiplies every entry of the output by \<open>c\<close> (and leaves a failure
  unchanged), for the 1D and the 2D kernel, on the fast and on the general path, in
  eager and in deferred mode. A rank-2 reward is rectangular.
\<close>

theorem homogeneous_without_normalization:
  assumes "well_shaped (payload reward)"
  shows "discount_reward (map_operand (scale_array c) reward) sequence_length discount False
           tensor_rank
         = map_sum id (scale_matrix c)
             (discount_reward reward sequence_length discount False tensor_rank)"
  using assms
  by (simp add: discount_reward_def and_then_Inr_id Let_def py_1d_scale tensor_1d_scale
      py_2d_scale tensor_2d_scale)

theorem homogeneous_without_normalization_witness:
  "well_shaped (payload (Py (Mat [[1, 2, 3], [4, 5, 6]]))) \<and>
   discount_reward (Py (Mat [[1, 2, 3], [4, 5, 6]])) (Some (Py [2, 3])) (1 / 2) False 2
     = Inr [[2, 2, 0], [8, 8, 6]] \<and>
   discount_reward (map_operand (scale_array 3) (Py (Mat [[1, 2, 3], [4, 5, 6]])))
       (Some (Py [2, 3])) (1 / 2) False 2
     = Inr [[6, 6, 0], [24, 24, 18]]"
proof -
  have a: "well_shaped (payload (Py (Mat [[1, 2, 3], [4, 5, 6]])))"
    by (simp add: rect_def)
  have b: "discount_reward (Py (Mat [[1, 2, 3], [4, 5, 6]])) (Some (Py [2, 3])) (1 / 2) False 2
     = Inr [[2, 2, 0], [8, 8, 6]]"
    by (simp add: discount_reward_def discount_reward_py_2d_def premask_def mask_sequences_def
        mask_row_def backward_loop_def ncols_def add_next_column_def upt_rec)
  have c: "discount_reward (map_operand (scale_array 3) (Py (Mat [[1, 2, 3], [4, 5, 6]])))
       (Some (Py [2, 3])) (1 / 2) False 2
     = Inr [[6, 6, 0], [24, 24, 18]]"
    using homogeneous_without_normalization [OF a, of 3 "Some (Py [2, 3])" "1 / 2" 2]
    by (simp add: b scale_matrix_def)
  show ?thesis by (intro conjI a b c)
qed

end
